theory Spec2Isabelle
  imports Main "HOL-Library.Char_ord" "HOL-Library.List_Lexorder"
begin

section \<open>Python values used by ical.py\<close>

text \<open>
  Exceptions are values. Only the classes that the modelled code paths can raise are
  listed; \<open>print(f"...: {e}")\<close> is recorded as the prefix together with the exception.
\<close>

datatype pyexn =
  AttributeError | TypeError | ValueError | OverflowError | IndexError | OSError | RequestException

datatype line = Text string | Error string pyexn

text \<open>
  \<open>sys.exit(1)\<close> raises SystemExit, which no \<open>except Exception\<close> of the program
  catches: a function either returns or ends the process with a status.
\<close>

datatype 'a result = Return 'a | Exit int

subsection \<open>datetime.date and datetime.datetime\<close>

text \<open>
  A \<open>datetime.date\<close> is its proleptic Gregorian ordinal (\<open>date.toordinal()\<close>,
  1 for 0001-01-01). A \<open>datetime.datetime\<close> is its wall clock, in microseconds
  counted from midnight of ordinal 0 (so \<open>wall = toordinal * 86400000000 +\<close> the
  microseconds since midnight), and its \<open>tzinfo\<close>: \<open>None\<close> for a naive value, the
  UTC offset in microseconds for an aware one (\<open>Some 0\<close> is
  \<open>datetime.timezone.utc\<close>). A zone stands for the fixed offset it gives, as
  \<open>datetime.timezone\<close> does: \<open>replace(tzinfo=z)\<close> and \<open>d + delta\<close> keep the offset
  whatever the clock value. A \<open>timedelta\<close> is a number of microseconds.
\<close>

type_synonym pydate = int

type_synonym timedelta = int

record pydatetime =
  wall :: int
  tzinfo :: "int option"

datatype dt_value = Date pydate | DateTime pydatetime

definition day_us :: int where
  "day_us = 86400000000"

definition utc :: "int option" where
  "utc = Some 0"

definition time_min :: int where
  "time_min = 0"

definition time_max :: int where
  "time_max = day_us - 1"

text \<open>\<open>date.min\<close> is ordinal 1 and \<open>date.max\<close> (9999-12-31) is ordinal 3652059.\<close>

definition min_wall :: int where
  "min_wall = day_us"

definition max_wall :: int where
  "max_wall = 3652060 * day_us - 1"

text \<open>\<open>d + timedelta(days=n)\<close> on a date raises OverflowError outside the range.\<close>

definition date_add :: "pydate \<Rightarrow> int \<Rightarrow> pyexn + pydate" where
  "date_add d n = (if 1 \<le> d + n \<and> d + n \<le> 3652059 then Inr (d + n) else Inl OverflowError)"

definition replace_tzinfo :: "pydatetime \<Rightarrow> int option \<Rightarrow> pydatetime" where
  "replace_tzinfo d tz = d\<lparr>tzinfo := tz\<rparr>"

text \<open>
  \<open>datetime.combine(d, t)\<close> for a naive time \<open>t\<close>. The first argument may be a
  datetime (a subclass of date): then its own time and tzinfo are ignored.
\<close>

fun date_part :: "dt_value \<Rightarrow> pydate" where
  "date_part (Date d) = d"
| "date_part (DateTime t) = wall t div day_us"

definition combine :: "dt_value \<Rightarrow> int \<Rightarrow> pydatetime" where
  "combine d t = \<lparr>wall = date_part d * day_us + t, tzinfo = None\<rparr>"

text \<open>
  Ordering and subtraction of two datetimes: both naive compares the wall clocks,
  both aware compares the instants (wall clock minus offset), one of each raises
  TypeError. Python takes the wall clocks of two aware values that share one tzinfo
  object; with a zone of fixed offset that is the same number. A zone whose offset
  changes with the date (daylight saving) is not modelled.
\<close>

definition dt_keys :: "pydatetime \<Rightarrow> pydatetime \<Rightarrow> pyexn + (int \<times> int)" where
  "dt_keys a b =
     (case (tzinfo a, tzinfo b) of
        (None, None) \<Rightarrow> Inr (wall a, wall b)
      | (Some oa, Some ob) \<Rightarrow> Inr (wall a - oa, wall b - ob)
      | _ \<Rightarrow> Inl TypeError)"

definition dt_le :: "pydatetime \<Rightarrow> pydatetime \<Rightarrow> pyexn + bool" where
  "dt_le a b = (case dt_keys a b of Inl e \<Rightarrow> Inl e | Inr (x, y) \<Rightarrow> Inr (x \<le> y))"

definition dt_ge :: "pydatetime \<Rightarrow> pydatetime \<Rightarrow> pyexn + bool" where
  "dt_ge a b = (case dt_keys a b of Inl e \<Rightarrow> Inl e | Inr (x, y) \<Rightarrow> Inr (x \<ge> y))"

definition dt_gt :: "pydatetime \<Rightarrow> pydatetime \<Rightarrow> pyexn + bool" where
  "dt_gt a b = (case dt_keys a b of Inl e \<Rightarrow> Inl e | Inr (x, y) \<Rightarrow> Inr (x > y))"

definition dt_sub :: "pydatetime \<Rightarrow> pydatetime \<Rightarrow> pyexn + timedelta" where
  "dt_sub a b = (case dt_keys a b of Inl e \<Rightarrow> Inl e | Inr (x, y) \<Rightarrow> Inr (x - y))"

text \<open>\<open>d + delta\<close> keeps the tzinfo and raises OverflowError outside year 1..9999.\<close>

definition dt_add :: "pydatetime \<Rightarrow> timedelta \<Rightarrow> pyexn + pydatetime" where
  "dt_add d delta =
     (if min_wall \<le> wall d + delta \<and> wall d + delta \<le> max_wall
      then Inr (d\<lparr>wall := wall d + delta\<rparr>)
      else Inl OverflowError)"

text \<open>
  \<open>a <= b\<close> where \<open>a\<close> is a datetime and \<open>b\<close> is a date or a datetime, and the
  other way round: a datetime against a bare date raises TypeError.
\<close>

fun le_dt_val :: "pydatetime \<Rightarrow> dt_value \<Rightarrow> pyexn + bool" where
  "le_dt_val a (DateTime b) = dt_le a b"
| "le_dt_val a (Date b) = Inl TypeError"

fun le_val_dt :: "dt_value \<Rightarrow> pydatetime \<Rightarrow> pyexn + bool" where
  "le_val_dt (DateTime a) b = dt_le a b"
| "le_val_dt (Date a) b = Inl TypeError"

text \<open>The chained comparison \<open>lo <= x <= hi\<close>: \<open>x <= hi\<close> is evaluated only if \<open>lo <= x\<close>.\<close>

definition between_bounds :: "pydatetime \<Rightarrow> dt_value \<Rightarrow> pydatetime \<Rightarrow> pyexn + bool" where
  "between_bounds lo x hi =
     (case le_dt_val lo x of
        Inl e \<Rightarrow> Inl e
      | Inr False \<Rightarrow> Inr False
      | Inr True \<Rightarrow> le_val_dt x hi)"

subsection \<open>icalendar components and dateutil rules\<close>

text \<open>
  A component as \<open>calendar.walk()\<close> yields it: its name and the properties the
  program reads, \<open>None\<close> where \<open>component.get\<close> finds nothing. \<open>dtstart\<close> and
  \<open>dtend\<close> hold the \<open>.dt\<close> of the property. For \<open>rrule\<close>, \<open>component.get\<close> gives
  one rule, held as its text \<open>to_ical().decode('utf-8')\<close>, or, when the event has
  several RRULE lines, a list of rules, which has no \<open>to_ical\<close>.
\<close>

datatype rrule_prop = Rule string | Rules "string list"

record component =
  name :: string
  summary :: "string option"
  description :: "string option"
  location :: "string option"
  organizer :: "string option"
  rrule :: "rrule_prop option"
  dtstart :: "dt_value option"
  dtend :: "dt_value option"

text \<open>One dict appended to \<open>events\<close> by \<open>parse_ical_data\<close>.\<close>

record event =
  ev_summary :: string
  ev_description :: string
  ev_location :: string
  ev_organizer :: string
  ev_start :: dt_value
  ev_end :: "dt_value option"
  ev_all_day :: bool

text \<open>
  The libraries are parameters. \<open>from_ical\<close> is \<open>Calendar.from_ical\<close> followed by
  \<open>walk()\<close>: the components in walk order, or the exception raised on undecodable
  text. \<open>rrulestr\<close> is dateutil's parser applied to the two lines
  \<open>DTSTART:<stamp>Z\<close> and the rule text: it takes the rule text and the stamp, and
  gives the instances the rule set generates, in generation order, or the exception
  raised on a malformed rule or stamp. From year 1000 on the stamp has its four-digit
  year and is held as the date-time it denotes (\<open>Stamp\<close>). Below year 1000
  \<open>strftime('%Y')\<close> may leave the year unpadded, and dateutil then raises or reads
  another date: such a stamp is held apart (\<open>ShortYear\<close>, with the date-time that was
  printed), and what dateutil makes of it is the parameter's.
\<close>

datatype stamp = Stamp pydatetime | ShortYear pydatetime

type_synonym from_ical_fn = "string \<Rightarrow> pyexn + component list"

type_synonym rrulestr_fn = "string \<Rightarrow> stamp \<Rightarrow> pyexn + pydatetime list"

text \<open>
  \<open>rule.between(after, before, inc=True)\<close>, dateutil's loop over the generated
  instances: stop at the first instance later than \<open>before\<close>, start collecting at the
  first instance not earlier than \<open>after\<close>.
\<close>

fun between_loop ::
  "pydatetime list \<Rightarrow> pydatetime \<Rightarrow> pydatetime \<Rightarrow> bool \<Rightarrow> pydatetime list
     \<Rightarrow> pyexn + pydatetime list" where
  "between_loop [] after before started l = Inr l"
| "between_loop (i # gen) after before started l =
     (case dt_gt i before of
        Inl e \<Rightarrow> Inl e
      | Inr True \<Rightarrow> Inr l
      | Inr False \<Rightarrow>
          if \<not> started then
            (case dt_ge i after of
               Inl e \<Rightarrow> Inl e
             | Inr True \<Rightarrow> between_loop gen after before True (l @ [i])
             | Inr False \<Rightarrow> between_loop gen after before False l)
          else between_loop gen after before True (l @ [i]))"

definition between :: "pydatetime list \<Rightarrow> pydatetime \<Rightarrow> pydatetime \<Rightarrow> pyexn + pydatetime list" where
  "between rule after before = between_loop rule after before False []"

section \<open>parse_ical_data\<close>

text \<open>\<open>str(component.get(key, default))\<close>.\<close>

definition get_str :: "string option \<Rightarrow> string \<Rightarrow> string" where
  "get_str p dflt = (case p of None \<Rightarrow> dflt | Some s \<Rightarrow> s)"

text \<open>
  Lines 78-80 and 147-150: a value that is a datetime with no tzinfo gets
  \<open>replace(tzinfo=datetime.timezone.utc)\<close>; anything else is left as it is.
\<close>

fun attach_utc :: "dt_value \<Rightarrow> dt_value" where
  "attach_utc (DateTime t) =
     (if tzinfo t = None then DateTime (replace_tzinfo t utc) else DateTime t)"
| "attach_utc (Date d) = Date d"

subsection \<open>Recurring events (lines 72-130)\<close>

text \<open>
  Line 83: \<open>dtstart.strftime('%Y%m%dT%H%M%SZ')\<close> prints the wall clock of
  \<open>dtstart\<close> to the second (midnight for a bare date) and then the letter Z, whatever
  the tzinfo of \<open>dtstart\<close> is; the stamp denotes that wall clock in UTC.
\<close>

fun rrule_anchor :: "dt_value \<Rightarrow> pydatetime" where
  "rrule_anchor (DateTime t) = \<lparr>wall = wall t - wall t mod 1000000, tzinfo = utc\<rparr>"
| "rrule_anchor (Date d) = \<lparr>wall = d * day_us, tzinfo = utc\<rparr>"

text \<open>The stamp of line 83; 0001-01-01 of year 1000 is ordinal 364878.\<close>

definition dtstart_stamp :: "dt_value \<Rightarrow> stamp" where
  "dtstart_stamp v =
     (if 364878 * day_us \<le> wall (rrule_anchor v) then Stamp (rrule_anchor v)
      else ShortYear (rrule_anchor v))"

text \<open>Lines 86-92: \<open>start_date_aware\<close> and \<open>end_date_aware\<close>.\<close>

fun date_aware :: "dt_value \<Rightarrow> pydatetime \<Rightarrow> pydatetime" where
  "date_aware (DateTime t) bound =
     (if tzinfo t \<noteq> None then
        (if tzinfo bound = None then replace_tzinfo bound utc else bound)
      else bound)"
| "date_aware (Date d) bound = bound"

text \<open>Lines 103-113: \<open>duration\<close>, from the properties as the feed gives them.\<close>

definition event_duration :: "component \<Rightarrow> pyexn + timedelta option" where
  "event_duration c =
     (case dtend c of
        None \<Rightarrow> Inr None
      | Some original_end \<Rightarrow>
          (case dtstart c of
             None \<Rightarrow> Inl AttributeError
           | Some original_start \<Rightarrow>
               (case (original_start, original_end) of
                  (DateTime s, DateTime e) \<Rightarrow>
                    (let s' = (if tzinfo s = None \<and> tzinfo e \<noteq> None
                               then replace_tzinfo s (tzinfo e) else s);
                         e' = (if tzinfo s = None \<and> tzinfo e \<noteq> None then e
                               else if tzinfo s \<noteq> None \<and> tzinfo e = None
                               then replace_tzinfo e (tzinfo s) else e)
                     in case dt_sub e' s' of
                          Inl x \<Rightarrow> Inl x
                        | Inr d \<Rightarrow> Inr (Some d))
                | _ \<Rightarrow> Inr None)))"

text \<open>
  Lines 116-118: \<open>if duration:\<close> is false for \<open>None\<close> and for \<open>timedelta(0)\<close>.
\<close>

definition instance_end :: "pydatetime \<Rightarrow> timedelta option \<Rightarrow> pyexn + pydatetime option" where
  "instance_end event_start duration =
     (case duration of
        None \<Rightarrow> Inr None
      | Some d \<Rightarrow>
          if d \<noteq> 0 then
            (case dt_add event_start d of Inl x \<Rightarrow> Inl x | Inr e \<Rightarrow> Inr (Some e))
          else Inr None)"

text \<open>Lines 100-128: the body of \<open>for instance in instances\<close>, up to the dict appended.\<close>

definition instance_event :: "component \<Rightarrow> pydatetime \<Rightarrow> pyexn + event" where
  "instance_event c instance =
     (case event_duration c of
        Inl x \<Rightarrow> Inl x
      | Inr duration \<Rightarrow>
          (case instance_end instance duration of
             Inl x \<Rightarrow> Inl x
           | Inr event_end \<Rightarrow>
               Inr \<lparr>ev_summary = get_str (summary c) ''No Title'',
                    ev_description = get_str (description c) [],
                    ev_location = get_str (location c) [],
                    ev_organizer = get_str (organizer c) [],
                    ev_start = DateTime instance,
                    ev_end = map_option DateTime event_end,
                    ev_all_day = False\<rparr>))"

text \<open>
  The loop appends to \<open>events\<close> as it goes: an exception leaves what was appended
  before it.
\<close>

fun instances_loop :: "component \<Rightarrow> pydatetime list \<Rightarrow> event list \<Rightarrow> event list \<times> pyexn option" where
  "instances_loop c [] events = (events, None)"
| "instances_loop c (instance # rest) events =
     (case instance_event c instance of
        Inl x \<Rightarrow> (events, Some x)
      | Inr ev \<Rightarrow> instances_loop c rest (events @ [ev]))"

text \<open>Lines 95-128, the body of the inner \<open>try\<close>.\<close>

definition recurring_instances ::
  "rrulestr_fn \<Rightarrow> component \<Rightarrow> string \<Rightarrow> stamp \<Rightarrow> pydatetime \<Rightarrow> pydatetime
     \<Rightarrow> event list \<Rightarrow> event list \<times> pyexn option" where
  "recurring_instances rrulestr c rrule_str dtstamp start_date_aware end_date_aware events =
     (case rrulestr rrule_str dtstamp of
        Inl x \<Rightarrow> (events, Some x)
      | Inr rule \<Rightarrow>
          (case between rule start_date_aware end_date_aware of
             Inl x \<Rightarrow> (events, Some x)
           | Inr instances \<Rightarrow> instances_loop c instances events))"

text \<open>
  Lines 73-130. A property that is present is a rule or a list of rules, and true as
  a condition. \<open>component.get('rrule').to_ical()\<close> and \<open>component.get('dtstart').dt\<close>
  are outside the inner \<open>try\<close>: a list of rules or a missing start raises
  AttributeError to the outer handler. The inner handler prints and goes on.
\<close>

definition recurring_event ::
  "rrulestr_fn \<Rightarrow> component \<Rightarrow> rrule_prop \<Rightarrow> pydatetime \<Rightarrow> pydatetime
     \<Rightarrow> event list \<times> line list \<Rightarrow> pyexn + (event list \<times> line list)" where
  "recurring_event rrulestr c rule start_date end_date st =
     (case rule of
        Rules rules \<Rightarrow> Inl AttributeError
      | Rule rrule_str \<Rightarrow>
          (case dtstart c of
             None \<Rightarrow> Inl AttributeError
           | Some d \<Rightarrow>
               (let dtstart' = attach_utc d;
                    dtstamp = dtstart_stamp dtstart';
                    start_date_aware = date_aware dtstart' start_date;
                    end_date_aware = date_aware dtstart' end_date
                in case recurring_instances rrulestr c rrule_str dtstamp
                          start_date_aware end_date_aware (fst st) of
                     (events, None) \<Rightarrow> Inr (events, snd st)
                   | (events, Some x) \<Rightarrow>
                       Inr (events,
                            snd st @ [Error ''Error processing recurring event'' x]))))"

subsection \<open>Regular events (lines 133-174)\<close>

text \<open>
  Line 165: \<open>start_date <= s <= end_date or (e and start_date <= e <= end_date)\<close>.
  A date or datetime is always true as a condition; the part after \<open>or\<close> is evaluated
  only when the part before it is false.
\<close>

definition in_week ::
  "pydatetime \<Rightarrow> dt_value \<Rightarrow> dt_value option \<Rightarrow> pydatetime \<Rightarrow> pyexn + bool" where
  "in_week start_date event_start_compare event_end_compare end_date =
     (case between_bounds start_date event_start_compare end_date of
        Inl x \<Rightarrow> Inl x
      | Inr True \<Rightarrow> Inr True
      | Inr False \<Rightarrow>
          (case event_end_compare of
             None \<Rightarrow> Inr False
           | Some e \<Rightarrow> between_bounds start_date e end_date))"

definition regular_event ::
  "component \<Rightarrow> pydatetime \<Rightarrow> pydatetime \<Rightarrow> event list \<Rightarrow> pyexn + event list" where
  "regular_event c start_date end_date events =
     (case dtstart c of
        None \<Rightarrow> Inl AttributeError
      | Some start0 \<Rightarrow>
          (let all_day = (case start0 of Date d \<Rightarrow> True | DateTime t \<Rightarrow> False);
               start1 = (if all_day then DateTime (combine start0 time_min) else start0);
               end1 = (if all_day
                       then map_option (\<lambda>e. DateTime (combine e time_min)) (dtend c)
                       else dtend c);
               event_start = attach_utc start1;
               event_end = map_option attach_utc end1;
               event_start_compare = attach_utc event_start;
               event_end_compare = map_option attach_utc event_end
           in case in_week start_date event_start_compare event_end_compare end_date of
                Inl x \<Rightarrow> Inl x
              | Inr True \<Rightarrow>
                  Inr (events @
                    [\<lparr>ev_summary = get_str (summary c) ''No Title'',
                      ev_description = get_str (description c) [],
                      ev_location = get_str (location c) [],
                      ev_organizer = get_str (organizer c) [],
                      ev_start = event_start,
                      ev_end = event_end,
                      ev_all_day = all_day\<rparr>])
              | Inr False \<Rightarrow> Inr events))"

subsection \<open>The walk over the components (lines 60-180)\<close>

definition process_component ::
  "rrulestr_fn \<Rightarrow> pydatetime \<Rightarrow> pydatetime \<Rightarrow> component
     \<Rightarrow> event list \<times> line list \<Rightarrow> pyexn + (event list \<times> line list)" where
  "process_component rrulestr start_date end_date c st =
     (if name c = ''VEVENT'' then
        (case rrule c of
           Some rule \<Rightarrow> recurring_event rrulestr c rule start_date end_date st
         | None \<Rightarrow>
             (case regular_event c start_date end_date (fst st) of
                Inl x \<Rightarrow> Inl x
              | Inr events \<Rightarrow> Inr (events, snd st)))
      else Inr st)"

text \<open>An exception that reaches the outer handler comes with what stderr holds by then.\<close>

fun walk_loop ::
  "rrulestr_fn \<Rightarrow> pydatetime \<Rightarrow> pydatetime \<Rightarrow> component list
     \<Rightarrow> event list \<times> line list \<Rightarrow> (pyexn \<times> line list) + (event list \<times> line list)" where
  "walk_loop rrulestr start_date end_date [] st = Inr st"
| "walk_loop rrulestr start_date end_date (c # cs) st =
     (case process_component rrulestr start_date end_date c st of
        Inl x \<Rightarrow> Inl (x, snd st)
      | Inr st' \<Rightarrow> walk_loop rrulestr start_date end_date cs st')"

definition parse_ical_data ::
  "from_ical_fn \<Rightarrow> rrulestr_fn \<Rightarrow> string \<Rightarrow> pydatetime \<Rightarrow> pydatetime \<Rightarrow> line list
     \<Rightarrow> event list result \<times> line list" where
  "parse_ical_data from_ical rrulestr ical_data start_date end_date err =
     (case from_ical ical_data of
        Inl x \<Rightarrow> (Exit 1, err @ [Error ''Error parsing calendar'' x])
      | Inr components \<Rightarrow>
          (case walk_loop rrulestr start_date end_date components ([], err) of
             Inl (x, err') \<Rightarrow> (Exit 1, err' @ [Error ''Error parsing calendar'' x])
           | Inr (events, err') \<Rightarrow> (Return events, err')))"

section \<open>Python strings\<close>

text \<open>
  \<open>str\<close> is modelled by \<open>string\<close>, one \<open>char\<close> per character: a \<open>char\<close> is a
  code point below 256, which covers every literal of the program. In that range
  \<open>str.isspace\<close> holds of the space, 0x09 to 0x0D, 0x1C to 0x1F, 0x85 and 0xA0.
  \<open>sub in s\<close>,
  \<open>s.split(sep)\<close> for a non-empty separator (the program only splits at literals),
  \<open>s.strip()\<close>, \<open>sep.join(xs)\<close>, \<open>xs[i]\<close> and \<open>str(n)\<close>.
\<close>

fun str_in :: "string \<Rightarrow> string \<Rightarrow> bool" where
  "str_in sub [] = (sub = [])"
| "str_in sub (c # cs) = (take (length sub) (c # cs) = sub \<or> str_in sub cs)"

function split_loop :: "string \<Rightarrow> string \<Rightarrow> string \<Rightarrow> string list" where
  "split_loop sep acc [] = [acc]"
| "split_loop sep acc (c # cs) =
     (if sep \<noteq> [] \<and> take (length sep) (c # cs) = sep
      then acc # split_loop sep [] (drop (length sep - 1) cs)
      else split_loop sep (acc @ [c]) cs)"
  by pat_completeness auto
termination
  by (relation "measure (\<lambda>(sep, acc, s). length s)") auto

definition str_split :: "string \<Rightarrow> string \<Rightarrow> string list" where
  "str_split s sep = split_loop sep [] s"

definition isspace :: "char \<Rightarrow> bool" where
  "isspace c = (c = CHR '' '' \<or> c \<in> set [CHR 0x09, CHR 0x0A, CHR 0x0B, CHR 0x0C, CHR 0x0D,
                                         CHR 0x1C, CHR 0x1D, CHR 0x1E, CHR 0x1F,
                                         CHR 0x85, CHR 0xA0])"

definition str_strip :: "string \<Rightarrow> string" where
  "str_strip s = rev (dropWhile isspace (rev (dropWhile isspace s)))"

fun str_join :: "string \<Rightarrow> string list \<Rightarrow> string" where
  "str_join sep [] = []"
| "str_join sep [x] = x"
| "str_join sep (x # y # ys) = x @ sep @ str_join sep (y # ys)"

definition index :: "'a list \<Rightarrow> nat \<Rightarrow> pyexn + 'a" where
  "index xs i = (if i < length xs then Inr (xs ! i) else Inl IndexError)"


definition nl :: string where
  "nl = [CHR 0x0A]"

section \<open>format_events\<close>

text \<open>\<open>value.strftime(fmt)\<close> of the standard library is a parameter.\<close>

type_synonym strftime_fn = "string \<Rightarrow> dt_value \<Rightarrow> string"

record formatted_event =
  Summary :: string
  Start :: string
  End :: string
  Location :: string
  Organizer :: string
  Description :: string

text \<open>Lines 196-199.\<close>

definition format_organizer :: "string \<Rightarrow> pyexn + string" where
  "format_organizer org =
     (if str_in ''MAILTO:'' org then
        (case index (str_split org ''MAILTO:'') 1 of
           Inl x \<Rightarrow> Inl x
         | Inr part \<Rightarrow> Inr (str_strip part))
      else Inr org)"

text \<open>Lines 187-208, the body of the loop. A date or datetime is always true as a condition.\<close>

definition format_event :: "strftime_fn \<Rightarrow> event \<Rightarrow> pyexn + formatted_event" where
  "format_event strftime ev =
     (let start_str = strftime ''%Y-%m-%d %H:%M'' (ev_start ev);
          end_str = (case ev_end ev of
                       Some e \<Rightarrow> strftime ''%Y-%m-%d %H:%M'' e
                     | None \<Rightarrow> ''N/A'');
          start_str' = (if ev_all_day ev
                        then strftime ''%Y-%m-%d'' (ev_start ev) @ '' (All day)''
                        else start_str);
          end_str' = (if ev_all_day ev
                      then (case ev_end ev of
                              Some e \<Rightarrow> strftime ''%Y-%m-%d'' e @ '' (All day)''
                            | None \<Rightarrow> ''N/A'')
                      else end_str)
      in case format_organizer (ev_organizer ev) of
           Inl x \<Rightarrow> Inl x
         | Inr org \<Rightarrow>
             Inr \<lparr>Summary = ev_summary ev,
                  Start = start_str',
                  End = end_str',
                  Location = ev_location ev,
                  Organizer = org,
                  Description = ev_description ev\<rparr>)"



section \<open>save_to_markdown\<close>



text \<open>
  \<open>today - timedelta(days=today.weekday())\<close> and \<open>start_of_week + timedelta(days=6)\<close>:
  Monday is weekday 0, and the Sunday of the last days of year 9999 is out of range.
\<close>

definition weekday :: "pydate \<Rightarrow> int" where
  "weekday d = (d + 6) mod 7"

definition start_of_week :: "pydatetime \<Rightarrow> pyexn + pydate" where
  "start_of_week now =
     (let today = date_part (DateTime now) in date_add today (- weekday today))"



text \<open>Lines 257-262.\<close>

definition time_str :: "formatted_event \<Rightarrow> pyexn + string" where
  "time_str e =
     (if str_in '' (All day)'' (Start e) then Inr ''All day''
      else
        (case index (str_split (Start e) '' '') 1 of
           Inl x \<Rightarrow> Inl x
         | Inr start_time \<Rightarrow>
             (case (if End e \<noteq> ''N/A'' then index (str_split (End e) '' '') 1
                    else Inr ''N/A'') of
                Inl x \<Rightarrow> Inl x
              | Inr end_time \<Rightarrow> Inr (start_time @ '' - '' @ end_time))))"

text \<open>Lines 281-286: where the description is cut.\<close>

definition cut_description :: "string \<Rightarrow> string" where
  "cut_description d =
     (if str_in ''Join Microsoft Teams Meeting'' d
      then hd (str_split d ''Join Microsoft Teams Meeting'')
      else if str_in ''Join Zoom Meeting'' d
      then hd (str_split d ''Join Zoom Meeting'')
      else if str_in ''Sie wurden zu einem Zoom-Meeting eingeladen'' d
      then hd (str_split d ''Sie wurden zu einem Zoom-Meeting eingeladen'')
      else d)"

text \<open>Lines 274-290: what is written for the description.\<close>

definition details :: "string \<Rightarrow> string" where
  "details d =
     (if d \<noteq> [] then
        ''**Details:**'' @ nl @ nl @
        str_join nl (map (\<lambda>line. ''    '' @ line) (str_split (cut_description d) nl)) @
        nl @ nl
      else [])"

text \<open>
  Lines 256-292: what is written for one event. The time line is computed before
  the first write, so an IndexError there leaves nothing of the event in the file.
\<close>

definition write_event :: "formatted_event \<Rightarrow> pyexn + string" where
  "write_event e =
     (case time_str e of
        Inl x \<Rightarrow> Inl x
      | Inr t \<Rightarrow>
          Inr (''### '' @ Summary e @ nl @ nl @
               ''**Time:** '' @ t @ nl @ nl @
               (if Location e \<noteq> [] then ''**Location:** '' @ Location e @ nl @ nl else []) @
               (if Organizer e \<noteq> [] then ''**Organizer:** '' @ Organizer e @ nl @ nl else []) @
               details (Description e) @
               ''---'' @ nl @ nl))"




section \<open>main\<close>

text \<open>Lines 27-41.\<close>

definition get_current_week_range :: "pydatetime \<Rightarrow> pyexn + (pydatetime \<times> pydatetime)" where
  "get_current_week_range now =
     (case start_of_week now of
        Inl x \<Rightarrow> Inl x
      | Inr monday \<Rightarrow>
          (case date_add monday 6 of
             Inl x \<Rightarrow> Inl x
           | Inr sunday \<Rightarrow>
               Inr (replace_tzinfo (combine (Date monday) time_min) utc,
                    replace_tzinfo (combine (Date sunday) time_max) utc)))"








section \<open>The specification's words\<close>

text \<open>
  Section 4.2 of the specification, non-recurring path: all-day dates become
  midnight-start instants in the reference zone, naive date-times are taken to be in
  the reference zone already, and a definition is included when its start instant or
  its end instant lies in the inclusive window.
\<close>

fun spec_normalize :: "dt_value \<Rightarrow> pydatetime" where
  "spec_normalize (Date d) = \<lparr>wall = d * day_us, tzinfo = utc\<rparr>"
| "spec_normalize (DateTime t) =
     (case tzinfo t of None \<Rightarrow> t\<lparr>tzinfo := utc\<rparr> | Some z \<Rightarrow> t)"

definition instant :: "pydatetime \<Rightarrow> int" where
  "instant t = wall t - (case tzinfo t of None \<Rightarrow> 0 | Some off \<Rightarrow> off)"

definition spec_in_window :: "pydatetime \<Rightarrow> pydatetime \<Rightarrow> dt_value \<Rightarrow> bool" where
  "spec_in_window windowStart windowEnd x =
     (instant windowStart \<le> instant (spec_normalize x) \<and>
      instant (spec_normalize x) \<le> instant windowEnd)"

definition spec_included ::
  "pydatetime \<Rightarrow> pydatetime \<Rightarrow> dt_value \<Rightarrow> dt_value option \<Rightarrow> bool" where
  "spec_included windowStart windowEnd s e =
     (spec_in_window windowStart windowEnd s \<or>
      (case e of None \<Rightarrow> False | Some e' \<Rightarrow> spec_in_window windowStart windowEnd e'))"

fun is_date :: "dt_value \<Rightarrow> bool" where
  "is_date (Date d) = True"
| "is_date (DateTime t) = False"

text \<open>The end, when present, has the representation of the start (date or date-time).\<close>

definition same_kind :: "dt_value \<Rightarrow> dt_value option \<Rightarrow> bool" where
  "same_kind s e = (case e of None \<Rightarrow> True | Some e' \<Rightarrow> is_date e' = is_date s)"

text \<open>The Occurrence of a non-recurring definition with start \<open>s\<close>.\<close>

definition spec_occurrence :: "component \<Rightarrow> dt_value \<Rightarrow> event" where
  "spec_occurrence c s =
     \<lparr>ev_summary = get_str (summary c) ''No Title'',
      ev_description = get_str (description c) [],
      ev_location = get_str (location c) [],
      ev_organizer = get_str (organizer c) [],
      ev_start = DateTime (spec_normalize s),
      ev_end = map_option (\<lambda>e. DateTime (spec_normalize e)) (dtend c),
      ev_all_day = is_date s\<rparr>"

text \<open>
  Concrete data for the examples: the week of Monday 2024-01-01 (ordinal 738886) as
  \<open>get_current_week_range\<close> builds it, and a component with no property set.
\<close>

definition week_start :: pydatetime where
  "week_start = \<lparr>wall = 738886 * day_us, tzinfo = utc\<rparr>"

definition week_end :: pydatetime where
  "week_end = \<lparr>wall = 738892 * day_us + time_max, tzinfo = utc\<rparr>"

definition vevent :: component where
  "vevent = \<lparr>name = ''VEVENT'', summary = None, description = None, location = None,
             organizer = None, rrule = None, dtstart = None, dtend = None\<rparr>"

definition no_rules :: rrulestr_fn where
  "no_rules text dtstamp = Inl ValueError"

text \<open>
  A stand-in for dateutil on a rule with \<open>COUNT=1\<close>: the only instance is the
  anchor itself.
\<close>

definition count_one :: rrulestr_fn where
  "count_one text dtstamp =
     (case dtstamp of Stamp anchor \<Rightarrow> Inr [anchor] | ShortYear printed \<Rightarrow> Inl ValueError)"

text \<open>Tuesday 2024-01-02 at 10:00 wall clock, in a zone one hour ahead of UTC and in UTC.\<close>

definition ten_berlin :: pydatetime where
  "ten_berlin = \<lparr>wall = 738887 * day_us + 36000000000, tzinfo = Some 3600000000\<rparr>"

definition ten_utc :: pydatetime where
  "ten_utc = \<lparr>wall = 738887 * day_us + 36000000000, tzinfo = utc\<rparr>"

definition daily_once :: component where
  "daily_once = vevent\<lparr>rrule := Some (Rule ''FREQ=DAILY;COUNT=1'')\<rparr>"


text \<open>A stand-in for icalendar: a feed whose walk yields the given components.\<close>

definition feed_of :: "component list \<Rightarrow> from_ical_fn" where
  "feed_of components text = Inr components"


definition strftime_fmt :: strftime_fn where
  "strftime_fmt fmt v = fmt"


definition now0 :: pydatetime where
  "now0 = \<lparr>wall = 738887 * day_us + 36000000000, tzinfo = None\<rparr>"




text \<open>An event of the week whose organizer is a mail address with the scheme in front.\<close>

definition invited :: component where
  "invited = vevent\<lparr>organizer := Some ''MAILTO:john@example.org'',
                    dtstart := Some (DateTime ten_utc)\<rparr>"

text \<open>
  The same Tuesday without a zone at 10:00 and 11:00, and 11:00 in the zone one hour
  ahead of UTC and in UTC.
\<close>

definition ten_naive :: pydatetime where
  "ten_naive = \<lparr>wall = 738887 * day_us + 36000000000, tzinfo = None\<rparr>"

definition eleven_naive :: pydatetime where
  "eleven_naive = \<lparr>wall = 738887 * day_us + 39600000000, tzinfo = None\<rparr>"

definition eleven_berlin :: pydatetime where
  "eleven_berlin = \<lparr>wall = 738887 * day_us + 39600000000, tzinfo = Some 3600000000\<rparr>"

definition eleven_utc :: pydatetime where
  "eleven_utc = \<lparr>wall = 738887 * day_us + 39600000000, tzinfo = utc\<rparr>"

text \<open>A stand-in for dateutil on a daily rule with three instances.\<close>

definition daily_three :: rrulestr_fn where
  "daily_three text dtstamp =
     (case dtstamp of
        Stamp anchor \<Rightarrow>
          Inr [anchor, anchor\<lparr>wall := wall anchor + day_us\<rparr>,
               anchor\<lparr>wall := wall anchor + 2 * day_us\<rparr>]
      | ShortYear printed \<Rightarrow> Inl ValueError)"

text \<open>10:00 UTC on 9999-12-30, the day before \<open>date.max\<close>.\<close>

definition ten_utc_9999 :: pydatetime where
  "ten_utc_9999 = \<lparr>wall = 3652058 * day_us + 36000000000, tzinfo = utc\<rparr>"

section \<open>Non-recurring events and the window\<close>

lemma week_of_now0: "get_current_week_range now0 = Inr (week_start, week_end)"
  by code_simp

lemma between_bounds_aware:
  assumes "tzinfo lo \<noteq> None" and "tzinfo hi \<noteq> None" and "tzinfo t \<noteq> None"
  shows "between_bounds lo (DateTime t) hi =
           Inr (instant lo \<le> instant t \<and> instant t \<le> instant hi)"
  using assms
  by (auto simp: between_bounds_def dt_le_def dt_keys_def instant_def split: bool.splits)

lemma attach_utc_idem: "attach_utc (attach_utc v) = attach_utc v"
  by (cases v) (simp_all add: replace_tzinfo_def utc_def)

lemma normalized_start:
  "attach_utc (if is_date s then DateTime (combine s time_min) else s) =
     DateTime (spec_normalize s)"
  by (cases s) (auto simp: combine_def time_min_def utc_def replace_tzinfo_def split: option.splits)

lemma normalized_end:
  "is_date e = is_date s \<Longrightarrow>
   attach_utc (if is_date s then DateTime (combine e time_min) else e) =
     DateTime (spec_normalize e)"
  by (cases s; cases e)
     (auto simp: combine_def time_min_def utc_def replace_tzinfo_def split: option.splits)

lemma spec_normalize_aware: "tzinfo (spec_normalize x) \<noteq> None"
  by (cases x) (auto simp: utc_def split: option.splits)

text \<open>
  The regular path on a definition whose end has the representation of its start:
  the window test runs on the normalized start and end, and the occurrence appended
  carries them.
\<close>

lemma regular_event_normal_form:
  assumes "dtstart c = Some s" and "same_kind s (dtend c)"
  shows "regular_event c start_date end_date events =
          (case in_week start_date (DateTime (spec_normalize s))
                  (map_option (\<lambda>e. DateTime (spec_normalize e)) (dtend c)) end_date of
             Inl x \<Rightarrow> Inl x
           | Inr True \<Rightarrow> Inr (events @ [spec_occurrence c s])
           | Inr False \<Rightarrow> Inr events)"
proof -
  have ends: "map_option attach_utc
                (if is_date s
                 then map_option (\<lambda>e. DateTime (combine e time_min)) (dtend c)
                 else dtend c)
              = map_option (\<lambda>e. DateTime (spec_normalize e)) (dtend c)"
  proof (cases "dtend c")
    case None
    then show ?thesis by simp
  next
    case (Some e)
    with assms(2) have "is_date e = is_date s" by (simp add: same_kind_def)
    from normalized_end[OF this] Some show ?thesis
      by (cases "is_date s") (simp_all del: attach_utc.simps)
  qed
  have ends2: "map_option attach_utc
                 (map_option (\<lambda>e. DateTime (spec_normalize e)) (dtend c))
               = map_option (\<lambda>e. DateTime (spec_normalize e)) (dtend c)"
    by (cases "dtend c") (simp_all add: spec_normalize_aware)
  have allday: "(case s of Date d \<Rightarrow> True | DateTime t \<Rightarrow> False) = is_date s"
    by (cases s) simp_all
  show ?thesis
    unfolding regular_event_def Let_def assms(1) option.case allday attach_utc_idem
      normalized_start ends ends2 spec_occurrence_def ..
qed

lemma in_week_aware:
  assumes "tzinfo start_date \<noteq> None" and "tzinfo end_date \<noteq> None"
  shows "in_week start_date (DateTime (spec_normalize s))
           (map_option (\<lambda>e. DateTime (spec_normalize e)) e_opt) end_date
         = Inr (spec_included start_date end_date s e_opt)"
  using assms
  by (cases e_opt)
     (auto simp: in_week_def between_bounds_aware spec_normalize_aware spec_included_def
                 spec_in_window_def split: bool.splits)

text \<open>
  A date-time start with a bare date as end: the end stays a bare date; the
  occurrence is appended when the start is in the window, and otherwise the
  comparison of the window with the bare date raises TypeError.
\<close>

lemma regular_event_mixed:
  assumes "tzinfo start_date \<noteq> None" and "tzinfo end_date \<noteq> None"
    and "dtstart c = Some (DateTime t)" and "dtend c = Some (Date d)"
  shows "regular_event c start_date end_date events =
           (if spec_in_window start_date end_date (DateTime t)
            then Inr (events @ [(spec_occurrence c (DateTime t))\<lparr>ev_end := Some (Date d)\<rparr>])
            else Inl TypeError)"
proof -
  have start: "attach_utc (DateTime t) = DateTime (spec_normalize (DateTime t))"
    using normalized_start[of "DateTime t"] by (simp del: attach_utc.simps)
  have bb: "between_bounds start_date (DateTime (spec_normalize (DateTime t))) end_date =
              Inr (spec_in_window start_date end_date (DateTime t))"
    using between_bounds_aware[OF assms(1,2) spec_normalize_aware, of "DateTime t"]
    by (simp add: spec_in_window_def del: spec_normalize.simps)
  have week: "in_week start_date (DateTime (spec_normalize (DateTime t)))
                (Some (Date d)) end_date =
              (if spec_in_window start_date end_date (DateTime t) then Inr True
               else Inl TypeError)"
    unfolding in_week_def bb by (simp add: between_bounds_def)
  have occ: "(spec_occurrence c (DateTime t))\<lparr>ev_end := Some (Date d)\<rparr> =
      \<lparr>ev_summary = get_str (summary c) ''No Title'',
        ev_description = get_str (description c) [],
        ev_location = get_str (location c) [],
        ev_organizer = get_str (organizer c) [],
        ev_start = DateTime (spec_normalize (DateTime t)),
        ev_end = Some (Date d),
        ev_all_day = False\<rparr>"
    by (simp add: spec_occurrence_def del: spec_normalize.simps)
  show ?thesis
    unfolding regular_event_def Let_def assms(3,4) option.case dt_value.case if_False
      attach_utc_idem start option.map attach_utc.simps(2) week occ
    by simp
qed

text \<open>
  C1, as the code has it, for a window with UTC bounds, as
  \<open>get_current_week_range\<close> builds it. A non-recurring event definition whose end,
  when present, has the representation of its start is appended as exactly one
  occurrence, with its normalized start and end, if its start instant or its end
  instant lies in the inclusive window, and is left out otherwise. A definition with
  a date-time start and a bare date as end is appended, its end left a bare date, if
  its start instant lies in the window; otherwise the comparison with the bare date
  raises TypeError.
\<close>

theorem regular_event_endpoint_window:
  assumes "tzinfo start_date = utc" and "tzinfo end_date = utc"
    and "name c = ''VEVENT''" and "rrule c = None" and "dtstart c = Some s"
  shows "(same_kind s (dtend c) \<longrightarrow>
            process_component rrulestr start_date end_date c (events, err) =
              Inr (if spec_included start_date end_date s (dtend c)
                   then events @ [spec_occurrence c s] else events, err))
       \<and> (\<forall>t d. s = DateTime t \<and> dtend c = Some (Date d) \<longrightarrow>
            process_component rrulestr start_date end_date c (events, err) =
              (if spec_in_window start_date end_date s
               then Inr (events @ [(spec_occurrence c s)\<lparr>ev_end := Some (Date d)\<rparr>], err)
               else Inl TypeError))"
proof -
  have aware: "tzinfo start_date \<noteq> None" "tzinfo end_date \<noteq> None"
    using assms(1,2) by (simp_all add: utc_def)
  have pc: "process_component rrulestr start_date end_date c (events, err) =
              (case regular_event c start_date end_date events of
                 Inl x \<Rightarrow> Inl x
               | Inr events' \<Rightarrow> Inr (events', err))"
    using assms(3,4) by (simp add: process_component_def split: sum.splits)
  have one: "process_component rrulestr start_date end_date c (events, err) =
              Inr (if spec_included start_date end_date s (dtend c)
                   then events @ [spec_occurrence c s] else events, err)"
    if "same_kind s (dtend c)"
    unfolding pc regular_event_normal_form[OF assms(5) that] in_week_aware[OF aware]
    by simp
  have two: "process_component rrulestr start_date end_date c (events, err) =
              (if spec_in_window start_date end_date s
               then Inr (events @ [(spec_occurrence c s)\<lparr>ev_end := Some (Date d)\<rparr>], err)
               else Inl TypeError)"
    if "s = DateTime t" and "dtend c = Some (Date d)" for t d
  proof -
    from assms(5) that(1) have "dtstart c = Some (DateTime t)" by simp
    from regular_event_mixed[OF aware this that(2), of events] that(1) show ?thesis
      unfolding pc by simp
  qed
  from one two show ?thesis by blast
qed

text \<open>
  At the week of 2024-01-01: an event that starts at the last instant of the window
  is included, and an event from 2023-12-26 to 2024-01-15, which covers the window
  with neither endpoint inside, is left out.
\<close>

theorem regular_event_endpoint_window_witness:
  "process_component no_rules week_start week_end
     (vevent\<lparr>dtstart := Some (DateTime week_end)\<rparr>) ([], []) =
     Inr ([\<lparr>ev_summary = ''No Title'', ev_description = [], ev_location = [],
             ev_organizer = [], ev_start = DateTime week_end, ev_end = None,
             ev_all_day = False\<rparr>], [])
   \<and> process_component no_rules week_start week_end
     (vevent\<lparr>dtstart := Some (Date 738880), dtend := Some (Date 738900)\<rparr>) ([], []) =
     Inr ([], [])"
proof -
  have a: "tzinfo week_start = utc" "tzinfo week_end = utc"
    by (simp_all add: week_start_def week_end_def)
  have 1: "process_component no_rules week_start week_end
     (vevent\<lparr>dtstart := Some (DateTime week_end)\<rparr>) ([], []) =
     Inr ([\<lparr>ev_summary = ''No Title'', ev_description = [], ev_location = [],
             ev_organizer = [], ev_start = DateTime week_end, ev_end = None,
             ev_all_day = False\<rparr>], [])"
    using regular_event_endpoint_window
      [OF a, of "vevent\<lparr>dtstart := Some (DateTime week_end)\<rparr>" "DateTime week_end"
         no_rules "[]" "[]"]
    by (simp add: vevent_def same_kind_def spec_included_def spec_in_window_def instant_def
          spec_occurrence_def get_str_def week_start_def week_end_def utc_def day_us_def
          time_max_def)
  have 2: "process_component no_rules week_start week_end
     (vevent\<lparr>dtstart := Some (Date 738880), dtend := Some (Date 738900)\<rparr>) ([], []) =
     Inr ([], [])"
    using regular_event_endpoint_window
      [OF a, of "vevent\<lparr>dtstart := Some (Date 738880), dtend := Some (Date 738900)\<rparr>"
         "Date 738880" no_rules "[]" "[]"]
    by (simp add: vevent_def same_kind_def spec_included_def spec_in_window_def instant_def
          week_start_def week_end_def utc_def day_us_def time_max_def)
  from 1 2 show ?thesis by simp
qed

text \<open>
  C1 as the claim states it fails where the end has another representation than the
  start. A definition that starts at 10:00 UTC on 2023-12-30 and ends on the bare date
  2024-01-02 has its end instant in the window, and the comparison raises TypeError.
  A definition that starts on the bare date 2023-12-26 and ends at 23:00 on 2023-12-31
  five hours behind UTC (04:00 UTC on 2024-01-01) has its end instant in the window,
  and is left out: line 144 keeps only the date of the end.
\<close>

theorem mixed_endpoints_not_included:
  "spec_included week_start week_end
     (DateTime \<lparr>wall = 738884 * day_us + 36000000000, tzinfo = utc\<rparr>)
     (Some (Date 738887))
   \<and> process_component no_rules week_start week_end
       (vevent\<lparr>dtstart := Some (DateTime \<lparr>wall = 738884 * day_us + 36000000000,
                                             tzinfo = utc\<rparr>),
               dtend := Some (Date 738887)\<rparr>) ([], []) = Inl TypeError
   \<and> spec_included week_start week_end (Date 738880)
       (Some (DateTime \<lparr>wall = 738885 * day_us + 82800000000,
                        tzinfo = Some (- 18000000000)\<rparr>))
   \<and> process_component no_rules week_start week_end
       (vevent\<lparr>dtstart := Some (Date 738880),
               dtend := Some (DateTime \<lparr>wall = 738885 * day_us + 82800000000,
                                         tzinfo = Some (- 18000000000)\<rparr>)\<rparr>) ([], []) =
     Inr ([], [])"
  by code_simp

section \<open>Recurring events\<close>

text \<open>
  What holds of the recurring path. On instances that are aware and ascending, as
  dateutil generates them from the UTC anchor, \<open>between\<close> gives exactly the
  instances in the inclusive window.
\<close>

lemma between_loop_window:
  assumes "tzinfo after \<noteq> None" and "tzinfo before \<noteq> None"
    and "\<forall>i\<in>set gen. tzinfo i \<noteq> None" and "sorted (map instant gen)"
    and "started \<longrightarrow> (\<forall>i\<in>set gen. instant after \<le> instant i)"
  shows "between_loop gen after before started l =
           Inr (l @ filter (\<lambda>i. instant after \<le> instant i \<and> instant i \<le> instant before) gen)"
  using assms(3,4,5)
proof (induction gen arbitrary: started l)
  case Nil
  then show ?case by simp
next
  case (Cons i gen)
  from Cons.prems(1) have ai: "tzinfo i \<noteq> None" and ag: "\<forall>j\<in>set gen. tzinfo j \<noteq> None"
    by simp_all
  from Cons.prems(2) have sg: "sorted (map instant gen)"
    and le: "\<forall>j\<in>set gen. instant i \<le> instant j"
    by simp_all
  have gt: "dt_gt i before = Inr (instant before < instant i)"
    using ai assms(2) by (auto simp: dt_gt_def dt_keys_def instant_def)
  have ge: "dt_ge i after = Inr (instant after \<le> instant i)"
    using ai assms(1) by (auto simp: dt_ge_def dt_keys_def instant_def)
  show ?case
  proof (cases "instant before < instant i")
    case True
    with le have "filter (\<lambda>j. instant after \<le> instant j \<and> instant j \<le> instant before) (i # gen) = []"
      by (auto simp: filter_empty_conv)
    with True gt show ?thesis by simp
  next
    case False
    note inside = False
    show ?thesis
    proof (cases "started \<or> instant after \<le> instant i")
      case True
      then have ia: "instant after \<le> instant i"
        using Cons.prems(3) by auto
      with le have inv: "True \<longrightarrow> (\<forall>j\<in>set gen. instant after \<le> instant j)"
        by auto
      have "between_loop (i # gen) after before started l =
              between_loop gen after before True (l @ [i])"
        using gt ge inside ia by simp
      also have "\<dots> = Inr ((l @ [i]) @
          filter (\<lambda>j. instant after \<le> instant j \<and> instant j \<le> instant before) gen)"
        by (rule Cons.IH[OF ag sg inv])
      finally show ?thesis using ia inside by simp
    next
      case False
      then have ns: "\<not> started" and nia: "\<not> instant after \<le> instant i"
        by simp_all
      have "between_loop (i # gen) after before started l =
              between_loop gen after before False l"
        using gt ge inside ns nia by simp
      also have "\<dots> = Inr (l @
          filter (\<lambda>j. instant after \<le> instant j \<and> instant j \<le> instant before) gen)"
        by (rule Cons.IH[OF ag sg]) simp
      finally show ?thesis using nia by simp
    qed
  qed
qed

lemma instances_loop_no_end:
  "dtend c = None \<Longrightarrow>
   instances_loop c instances events =
     (events @ map (\<lambda>i. \<lparr>ev_summary = get_str (summary c) ''No Title'',
                            ev_description = get_str (description c) [],
                            ev_location = get_str (location c) [],
                            ev_organizer = get_str (organizer c) [],
                            ev_start = DateTime i, ev_end = None,
                            ev_all_day = False\<rparr>) instances, None)"
  by (induction instances arbitrary: events)
     (simp_all add: instance_event_def event_duration_def instance_end_def)

lemma date_aware_of_aware: "tzinfo bound \<noteq> None \<Longrightarrow> date_aware v bound = bound"
  by (cases v) auto

text \<open>
  So a recurring definition without an end contributes one occurrence for each
  instance of its rule in the window, in order, and nothing outside the window.
\<close>

lemma recurring_occurrences_in_window:
  assumes "name c = ''VEVENT''" and "rrule c = Some (Rule r)" and "dtstart c = Some d"
    and "dtend c = None"
    and "tzinfo start_date \<noteq> None" and "tzinfo end_date \<noteq> None"
    and "rrulestr r (dtstart_stamp (attach_utc d)) = Inr rule"
    and "\<forall>i\<in>set rule. tzinfo i \<noteq> None" and "sorted (map instant rule)"
  shows "process_component rrulestr start_date end_date c (events, err) =
     Inr (events @
          map (\<lambda>i. \<lparr>ev_summary = get_str (summary c) ''No Title'',
                      ev_description = get_str (description c) [],
                      ev_location = get_str (location c) [],
                      ev_organizer = get_str (organizer c) [],
                      ev_start = DateTime i, ev_end = None, ev_all_day = False\<rparr>)
            (filter (\<lambda>i. instant start_date \<le> instant i \<and> instant i \<le> instant end_date)
               rule),
          err)"
proof -
  have b: "between rule start_date end_date =
             Inr (filter (\<lambda>i. instant start_date \<le> instant i \<and> instant i \<le> instant end_date)
                    rule)"
    unfolding between_def
    using between_loop_window[OF assms(5,6,8,9), of False "[]"] by simp
  have "recurring_instances rrulestr c r (dtstart_stamp (attach_utc d))
          (date_aware (attach_utc d) start_date) (date_aware (attach_utc d) end_date) events =
        (events @
          map (\<lambda>i. \<lparr>ev_summary = get_str (summary c) ''No Title'',
                      ev_description = get_str (description c) [],
                      ev_location = get_str (location c) [],
                      ev_organizer = get_str (organizer c) [],
                      ev_start = DateTime i, ev_end = None, ev_all_day = False\<rparr>)
            (filter (\<lambda>i. instant start_date \<le> instant i \<and> instant i \<le> instant end_date)
               rule), None)"
    unfolding recurring_instances_def assms(7) sum.case
      date_aware_of_aware[OF assms(5)] date_aware_of_aware[OF assms(6)] b
      instances_loop_no_end[OF assms(4)] ..
  then show ?thesis
    using assms(1,2,3) by (simp add: process_component_def recurring_event_def Let_def)
qed

text \<open>
  The end of an instance: the start plus the duration when the duration is known, is
  not zero and leaves the sum in the range of \<open>datetime\<close>; no end when the definition
  has no end or its start and end are not both date-times.
\<close>

lemma instance_event_end:
  assumes "event_duration c = Inr (Some d)" and "d \<noteq> 0"
    and "min_wall \<le> wall i + d" and "wall i + d \<le> max_wall"
  shows "\<exists>ev. instance_event c i = Inr ev \<and> ev_start ev = DateTime i \<and>
              ev_end ev = Some (DateTime (i\<lparr>wall := wall i + d\<rparr>))"
  using assms by (simp add: instance_event_def instance_end_def dt_add_def)

lemma instance_event_no_end:
  assumes "dtend c = None \<or>
           (\<exists>s e. dtstart c = Some s \<and> dtend c = Some e \<and> (is_date s \<or> is_date e))"
  shows "\<exists>ev. instance_event c i = Inr ev \<and> ev_start ev = DateTime i \<and> ev_end ev = None"
proof -
  have "event_duration c = Inr None"
    using assms
    by (auto simp: event_duration_def split: option.splits dt_value.splits)
  then show ?thesis
    by (simp add: instance_event_def instance_end_def)
qed

text \<open>
  C2. The claim anchors the rule at the definition's original start instant. The code
  prints the wall clock of \<open>dtstart\<close> and labels it UTC: for a start at 10:00 in a
  zone one hour ahead of UTC (the instant 09:00 UTC) the rule is anchored at 10:00 UTC,
  one hour after the original start instant, and the occurrence of a \<open>COUNT=1\<close> rule
  is produced there.
\<close>

theorem recurring_anchor_off_start_instant:
  "instant (rrule_anchor (attach_utc (DateTime ten_berlin))) = instant ten_berlin + 3600000000
   \<and> process_component count_one week_start week_end
       (daily_once\<lparr>dtstart := Some (DateTime ten_berlin)\<rparr>) ([], []) =
     Inr ([\<lparr>ev_summary = ''No Title'', ev_description = [], ev_location = [],
             ev_organizer = [], ev_start = DateTime ten_utc, ev_end = None,
             ev_all_day = False\<rparr>], [])"
  by code_simp

text \<open>
  C3. The claim gives every instance of a definition with date-time start and end the
  end \<open>start + duration\<close>. For a definition whose end equals its start the duration is
  \<open>timedelta(0)\<close>, which \<open>if duration:\<close> takes for false: the occurrence has no end.
\<close>

theorem recurring_zero_duration_no_end:
  "event_duration (daily_once\<lparr>dtstart := Some (DateTime ten_utc),
                               dtend := Some (DateTime ten_utc)\<rparr>) = Inr (Some 0)
   \<and> process_component count_one week_start week_end
       (daily_once\<lparr>dtstart := Some (DateTime ten_utc), dtend := Some (DateTime ten_utc)\<rparr>)
       ([], []) =
     Inr ([\<lparr>ev_summary = ''No Title'', ev_description = [], ev_location = [],
             ev_organizer = [], ev_start = DateTime ten_utc, ev_end = None,
             ev_all_day = False\<rparr>], [])"
  by code_simp


section \<open>Errors while a recurrence rule is expanded\<close>

lemma instances_loop_extends:
  "instances_loop c instances events = (events', x) \<Longrightarrow> \<exists>new. events' = events @ new"
proof (induction instances arbitrary: events)
  case Nil
  then show ?case by simp
next
  case (Cons i rest)
  show ?case
  proof (cases "instance_event c i")
    case (Inl y)
    with Cons.prems show ?thesis by simp
  next
    case (Inr ev)
    with Cons.prems have "instances_loop c rest (events @ [ev]) = (events', x)"
      by simp
    from Cons.IH[OF this] obtain new where "events' = (events @ [ev]) @ new"
      by blast
    then have "events' = events @ (ev # new)"
      by simp
    then show ?thesis by blast
  qed
qed

text \<open>
  C4, as the code has it. For a recurring definition with one rule and a start, an
  exception raised in the inner \<open>try\<close> never ends the walk: the walk goes on with
  the remaining components, with what the definition appended and at most one line
  more on stderr. When \<open>rrulestr\<close> or \<open>between\<close> raises, the definition appends
  nothing and the line names the exception. When the end of an instance raises, the
  line names the exception as well.
\<close>

theorem recurrence_error_recovered:
  assumes "name c = ''VEVENT''" and "rrule c = Some (Rule r)" and "dtstart c = Some d"
  shows "\<exists>new log.
           walk_loop rrulestr start_date end_date (c # cs) (events, err) =
             walk_loop rrulestr start_date end_date cs (events @ new, err @ log)
         \<and> (log = [] \<or> (\<exists>x. log = [Error ''Error processing recurring event'' x]))
         \<and> (\<forall>x. rrulestr r (dtstart_stamp (attach_utc d)) = Inl x \<or>
                 (\<exists>rule. rrulestr r (dtstart_stamp (attach_utc d)) = Inr rule \<and>
                         between rule (date_aware (attach_utc d) start_date)
                           (date_aware (attach_utc d) end_date) = Inl x)
                 \<longrightarrow> new = [] \<and> log = [Error ''Error processing recurring event'' x])
         \<and> (\<forall>rule instances evs x.
                 rrulestr r (dtstart_stamp (attach_utc d)) = Inr rule \<and>
                 between rule (date_aware (attach_utc d) start_date)
                   (date_aware (attach_utc d) end_date) = Inr instances \<and>
                 instances_loop c instances events = (evs, Some x)
                 \<longrightarrow> log = [Error ''Error processing recurring event'' x])"
proof -
  let ?stamp = "dtstart_stamp (attach_utc d)"
  let ?lo = "date_aware (attach_utc d) start_date"
  let ?hi = "date_aware (attach_utc d) end_date"
  have pc: "process_component rrulestr start_date end_date c (events, err) =
              (case recurring_instances rrulestr c r ?stamp ?lo ?hi events of
                 (evs, None) \<Rightarrow> Inr (evs, err)
               | (evs, Some x) \<Rightarrow>
                   Inr (evs, err @ [Error ''Error processing recurring event'' x]))"
    using assms by (simp add: process_component_def recurring_event_def Let_def)
  have raised: ?thesis
    if ri: "recurring_instances rrulestr c r ?stamp ?lo ?hi events = (events, Some x)"
      and en: "rrulestr r ?stamp = Inl x \<or>
               (\<exists>rule. rrulestr r ?stamp = Inr rule \<and> between rule ?lo ?hi = Inl x)" for x
  proof -
    have step: "walk_loop rrulestr start_date end_date (c # cs) (events, err) =
            walk_loop rrulestr start_date end_date cs
              (events @ [], err @ [Error ''Error processing recurring event'' x])"
      unfolding walk_loop.simps pc ri by simp
    have only: "y = x"
      if "rrulestr r ?stamp = Inl y \<or>
          (\<exists>rule. rrulestr r ?stamp = Inr rule \<and> between rule ?lo ?hi = Inl y)" for y
      using that en by auto
    have none: "\<not> (rrulestr r ?stamp = Inr rule \<and> between rule ?lo ?hi = Inr instances)"
      for rule instances
      using en by auto
    from step only none show ?thesis
      by (intro exI[of _ "[]"] exI[of _ "[Error ''Error processing recurring event'' x]"])
         blast
  qed
  show ?thesis
  proof (cases "rrulestr r ?stamp")
    case (Inl x)
    then have "recurring_instances rrulestr c r ?stamp ?lo ?hi events = (events, Some x)"
      by (simp add: recurring_instances_def)
    from raised[OF this] Inl show ?thesis by blast
  next
    case (Inr rule)
    note rule = Inr
    show ?thesis
    proof (cases "between rule ?lo ?hi")
      case (Inl x)
      with rule have "recurring_instances rrulestr c r ?stamp ?lo ?hi events = (events, Some x)"
        by (simp add: recurring_instances_def)
      from raised[OF this] rule Inl show ?thesis by blast
    next
      case (Inr instances)
      obtain evs exn where il: "instances_loop c instances events = (evs, exn)"
        by (cases "instances_loop c instances events")
      from instances_loop_extends[OF il] obtain new where new: "evs = events @ new"
        by blast
      from rule Inr il have ri: "recurring_instances rrulestr c r ?stamp ?lo ?hi events =
                               (evs, exn)"
        by (simp add: recurring_instances_def)
      define log where "log =
        (case exn of None \<Rightarrow> [] | Some x \<Rightarrow> [Error ''Error processing recurring event'' x])"
      have step: "walk_loop rrulestr start_date end_date (c # cs) (events, err) =
              walk_loop rrulestr start_date end_date cs (events @ new, err @ log)"
        unfolding walk_loop.simps pc ri log_def new by (cases exn) simp_all
      have shape: "log = [] \<or> (\<exists>x. log = [Error ''Error processing recurring event'' x])"
        unfolding log_def by (cases exn) simp_all
      have noraise: "\<not> (rrulestr r ?stamp = Inl x \<or>
               (\<exists>rule. rrulestr r ?stamp = Inr rule \<and> between rule ?lo ?hi = Inl x))" for x
        using rule Inr by auto
      have logged: "log = [Error ''Error processing recurring event'' x]"
        if "rrulestr r ?stamp = Inr rule'" and "between rule' ?lo ?hi = Inr instances'"
          and "instances_loop c instances' events = (evs', Some x)" for rule' instances' evs' x
      proof -
        from that(1) rule have "rule' = rule" by simp
        with that(2) Inr have "instances' = instances" by simp
        with that(3) il have "exn = Some x" by simp
        then show ?thesis by (simp add: log_def)
      qed
      from step shape noraise logged show ?thesis
        by (intro exI[of _ new] exI[of _ log]) blast
    qed
  qed
qed

text \<open>
  A recurring definition whose rule does not parse, followed by a regular event of
  the week: the first leaves a line on stderr and the second is collected.
\<close>

theorem recurrence_error_recovered_witness:
  "walk_loop no_rules week_start week_end
     [daily_once\<lparr>dtstart := Some (DateTime ten_utc)\<rparr>,
      vevent\<lparr>dtstart := Some (DateTime ten_utc)\<rparr>] ([], []) =
   Inr ([\<lparr>ev_summary = ''No Title'', ev_description = [], ev_location = [],
           ev_organizer = [], ev_start = DateTime ten_utc, ev_end = None,
           ev_all_day = False\<rparr>],
        [Error ''Error processing recurring event'' ValueError])"
proof -
  let ?c = "daily_once\<lparr>dtstart := Some (DateTime ten_utc)\<rparr>"
  have h: "name ?c = ''VEVENT''" "rrule ?c = Some (Rule ''FREQ=DAILY;COUNT=1'')"
    "dtstart ?c = Some (DateTime ten_utc)"
    by (simp_all add: daily_once_def vevent_def)
  have raises: "no_rules ''FREQ=DAILY;COUNT=1'' (dtstart_stamp (attach_utc (DateTime ten_utc))) =
                  Inl ValueError"
    by (simp add: no_rules_def)
  from recurrence_error_recovered[OF h, of no_rules week_start week_end
      "[vevent\<lparr>dtstart := Some (DateTime ten_utc)\<rparr>]" "[]" "[]"]
  obtain new log where
    step: "walk_loop no_rules week_start week_end
             [?c, vevent\<lparr>dtstart := Some (DateTime ten_utc)\<rparr>] ([], []) =
           walk_loop no_rules week_start week_end
             [vevent\<lparr>dtstart := Some (DateTime ten_utc)\<rparr>] ([] @ new, [] @ log)"
    and zero: "\<forall>x. no_rules ''FREQ=DAILY;COUNT=1''
                      (dtstart_stamp (attach_utc (DateTime ten_utc))) = Inl x \<or>
                 (\<exists>rule. no_rules ''FREQ=DAILY;COUNT=1''
                           (dtstart_stamp (attach_utc (DateTime ten_utc))) = Inr rule \<and>
                         between rule (date_aware (attach_utc (DateTime ten_utc)) week_start)
                           (date_aware (attach_utc (DateTime ten_utc)) week_end) = Inl x)
                 \<longrightarrow> new = [] \<and> log = [Error ''Error processing recurring event'' x]"
    by blast
  from zero raises have "new = []" and "log = [Error ''Error processing recurring event'' ValueError]"
    by blast+
  with step have "walk_loop no_rules week_start week_end
             [?c, vevent\<lparr>dtstart := Some (DateTime ten_utc)\<rparr>] ([], []) =
           walk_loop no_rules week_start week_end
             [vevent\<lparr>dtstart := Some (DateTime ten_utc)\<rparr>]
             ([], [Error ''Error processing recurring event'' ValueError])"
    by simp
  also have "\<dots> = Inr ([\<lparr>ev_summary = ''No Title'', ev_description = [], ev_location = [],
           ev_organizer = [], ev_start = DateTime ten_utc, ev_end = None,
           ev_all_day = False\<rparr>],
        [Error ''Error processing recurring event'' ValueError])"
    by code_simp
  finally show ?thesis .
qed

text \<open>
  C4 as the claim states it fails when the date arithmetic that raises is the end of
  an instance, \<open>event_start + duration\<close> at line 118, inside the loop that appends: the
  OverflowError is caught and logged, and the occurrences appended for the earlier
  instances stay. A definition from 2024-01-02 10:00 to 9999-12-30 10:00 that repeats
  daily gives two occurrences in the week and then the error.
\<close>

theorem end_overflow_keeps_earlier_occurrences:
  "process_component daily_three week_start week_end
     (daily_once\<lparr>dtstart := Some (DateTime ten_utc),
                  dtend := Some (DateTime ten_utc_9999)\<rparr>) ([], []) =
   Inr ([\<lparr>ev_summary = ''No Title'', ev_description = [], ev_location = [],
           ev_organizer = [], ev_start = DateTime ten_utc,
           ev_end = Some (DateTime ten_utc_9999), ev_all_day = False\<rparr>,
         \<lparr>ev_summary = ''No Title'', ev_description = [], ev_location = [],
           ev_organizer = [],
           ev_start = DateTime (ten_utc\<lparr>wall := wall ten_utc + day_us\<rparr>),
           ev_end = Some (DateTime (ten_utc_9999\<lparr>wall := wall ten_utc_9999 + day_us\<rparr>)),
           ev_all_day = False\<rparr>],
        [Error ''Error processing recurring event'' OverflowError])"
  by code_simp

section \<open>The all-day flag\<close>

lemma instances_loop_appends:
  "instances_loop c instances events = (events', x) \<Longrightarrow>
   \<exists>new. events' = events @ new \<and> (\<forall>e\<in>set new. \<not> ev_all_day e)"
proof (induction instances arbitrary: events)
  case Nil
  then show ?case by simp
next
  case (Cons i rest)
  show ?case
  proof (cases "instance_event c i")
    case (Inl y)
    with Cons.prems show ?thesis by simp
  next
    case (Inr ev)
    then have flag: "\<not> ev_all_day ev"
      by (auto simp: instance_event_def split: sum.splits)
    from Cons.prems Inr have "instances_loop c rest (events @ [ev]) = (events', x)"
      by simp
    from Cons.IH[OF this] obtain new
      where "events' = (events @ [ev]) @ new" and "\<forall>e\<in>set new. \<not> ev_all_day e"
      by blast
    with flag have "events' = events @ (ev # new) \<and> (\<forall>e\<in>set (ev # new). \<not> ev_all_day e)"
      by simp
    then show ?thesis by blast
  qed
qed

lemma recurring_event_appends:
  assumes "recurring_event rrulestr c rule start_date end_date (events, err) =
             Inr (events', err')"
  shows "\<exists>new. events' = events @ new \<and> (\<forall>e\<in>set new. \<not> ev_all_day e)"
proof -
  from assms obtain r where r: "rule = Rule r"
    by (cases rule) (simp_all add: recurring_event_def)
  from assms r obtain d where d: "dtstart c = Some d"
    by (cases "dtstart c") (simp_all add: recurring_event_def)
  obtain evs x where ri: "recurring_instances rrulestr c r (dtstart_stamp (attach_utc d))
          (date_aware (attach_utc d) start_date) (date_aware (attach_utc d) end_date) events
        = (evs, x)"
    by (cases "recurring_instances rrulestr c r (dtstart_stamp (attach_utc d))
          (date_aware (attach_utc d) start_date) (date_aware (attach_utc d) end_date) events")
  with assms r d have same: "events' = evs"
    by (cases x) (simp_all add: recurring_event_def Let_def)
  have "\<exists>new. evs = events @ new \<and> (\<forall>e\<in>set new. \<not> ev_all_day e)"
    using ri instances_loop_appends
    by (fastforce simp: recurring_instances_def split: sum.splits)
  with same show ?thesis by simp
qed

lemma regular_event_appends:
  assumes "regular_event c start_date end_date events = Inr events'"
  shows "\<exists>new. events' = events @ new \<and>
           (\<forall>e\<in>set new. ev_all_day e = (\<exists>d. dtstart c = Some (Date d)))"
proof -
  from assms obtain s where s: "dtstart c = Some s"
    by (cases "dtstart c") (simp_all add: regular_event_def)
  have flag: "(case s of Date d \<Rightarrow> True | DateTime t \<Rightarrow> False) = (\<exists>d. s = Date d)"
    by (cases s) simp_all
  from assms s flag have "events' = events \<or>
     (\<exists>e. events' = events @ [e] \<and> ev_all_day e = (\<exists>d. s = Date d))"
    by (auto simp: regular_event_def Let_def split: sum.splits bool.splits)
  with s show ?thesis by auto
qed

text \<open>
  C7. Whatever a VEVENT appends, an occurrence from the recurring path has
  \<open>all_day\<close> false, also when the definition starts on a bare date, and an occurrence
  from the non-recurring path has \<open>all_day\<close> true exactly when the start is a bare date.
\<close>

theorem all_day_only_for_regular_dates:
  assumes "name c = ''VEVENT''"
    and "process_component rrulestr start_date end_date c (events, err) = Inr (events', err')"
  shows "\<exists>new. events' = events @ new \<and>
           (\<forall>e\<in>set new. ev_all_day e = (rrule c = None \<and> (\<exists>d. dtstart c = Some (Date d))))"
proof (cases "rrule c")
  case None
  with assms have "regular_event c start_date end_date events = Inr events'"
    by (auto simp: process_component_def split: sum.splits)
  from regular_event_appends[OF this] None show ?thesis by simp
next
  case (Some r)
  with assms have "recurring_event rrulestr c r start_date end_date (events, err) =
                     Inr (events', err')"
    by (simp add: process_component_def)
  from recurring_event_appends[OF this] Some show ?thesis by simp
qed

text \<open>
  A definition that starts on the bare date 2024-01-02, once with a \<open>COUNT=1\<close> rule
  and once without a rule.
\<close>

theorem all_day_only_for_regular_dates_witness:
  "process_component count_one week_start week_end
     (daily_once\<lparr>dtstart := Some (Date 738887)\<rparr>) ([], []) =
     Inr ([\<lparr>ev_summary = ''No Title'', ev_description = [], ev_location = [],
             ev_organizer = [],
             ev_start = DateTime \<lparr>wall = 738887 * day_us, tzinfo = utc\<rparr>,
             ev_end = None, ev_all_day = False\<rparr>], [])
   \<and> process_component count_one week_start week_end
     (vevent\<lparr>dtstart := Some (Date 738887)\<rparr>) ([], []) =
     Inr ([\<lparr>ev_summary = ''No Title'', ev_description = [], ev_location = [],
             ev_organizer = [],
             ev_start = DateTime \<lparr>wall = 738887 * day_us, tzinfo = utc\<rparr>,
             ev_end = None, ev_all_day = True\<rparr>], [])"
proof -
  have r1: "process_component count_one week_start week_end
       (daily_once\<lparr>dtstart := Some (Date 738887)\<rparr>) ([], []) =
     Inr ([\<lparr>ev_summary = ''No Title'', ev_description = [], ev_location = [],
             ev_organizer = [],
             ev_start = DateTime \<lparr>wall = 738887 * day_us, tzinfo = utc\<rparr>,
             ev_end = None, ev_all_day = False\<rparr>], [])"
    by code_simp
  have r2: "process_component count_one week_start week_end
       (vevent\<lparr>dtstart := Some (Date 738887)\<rparr>) ([], []) =
     Inr ([\<lparr>ev_summary = ''No Title'', ev_description = [], ev_location = [],
             ev_organizer = [],
             ev_start = DateTime \<lparr>wall = 738887 * day_us, tzinfo = utc\<rparr>,
             ev_end = None, ev_all_day = True\<rparr>], [])"
    by code_simp
  have n: "name (daily_once\<lparr>dtstart := Some (Date 738887)\<rparr>) = ''VEVENT''"
    "name (vevent\<lparr>dtstart := Some (Date 738887)\<rparr>) = ''VEVENT''"
    by (simp_all add: daily_once_def vevent_def)
  from all_day_only_for_regular_dates[OF n(1) r1] all_day_only_for_regular_dates[OF n(2) r2]
    r1 r2
  show ?thesis by simp
qed

section \<open>Failures the outer handler sees\<close>

lemma walk_loop_append:
  "walk_loop rrulestr start_date end_date (pre @ rest) st =
     (case walk_loop rrulestr start_date end_date pre st of
        Inl e \<Rightarrow> Inl e
      | Inr st' \<Rightarrow> walk_loop rrulestr start_date end_date rest st')"
  by (induction pre arbitrary: st) (auto split: sum.splits)

lemma regular_event_mixed_raises:
  assumes "tzinfo start_date \<noteq> None" and "tzinfo end_date \<noteq> None"
    and "dtstart c = Some (DateTime t)" and "dtend c = Some (Date d)"
    and "\<not> spec_in_window start_date end_date (DateTime t)"
  shows "regular_event c start_date end_date events = Inl TypeError"
proof -
  have start: "attach_utc (DateTime t) = DateTime (spec_normalize (DateTime t))"
    using normalized_start[of "DateTime t"] by (simp del: attach_utc.simps)
  have "between_bounds start_date (DateTime (spec_normalize (DateTime t))) end_date = Inr False"
    using assms(5) between_bounds_aware[OF assms(1,2) spec_normalize_aware, of "DateTime t"]
    by (simp add: spec_in_window_def del: spec_normalize.simps)
  then have week: "in_week start_date (DateTime (spec_normalize (DateTime t)))
                     (Some (Date d)) end_date = Inl TypeError"
    by (simp add: in_week_def between_bounds_def)
  show ?thesis
    unfolding regular_event_def Let_def assms(3,4) option.case dt_value.case if_False
      attach_utc_idem start option.map attach_utc.simps(2) week
    by simp
qed

text \<open>
  C10. A non-recurring VEVENT that lacks a start, or whose date-time start lies
  outside the window while its end is a bare date, ends the whole parse: the events
  collected from the components before it are dropped, the diagnostic is printed and
  the process exits with status 1.
\<close>

theorem regular_event_failure_aborts_parse:
  assumes "from_ical ical_data = Inr (pre @ c # post)"
    and "walk_loop rrulestr start_date end_date pre ([], err) = Inr (events, err')"
    and "name c = ''VEVENT''" and "rrule c = None"
    and "dtstart c = None \<or>
         (\<exists>t d. dtstart c = Some (DateTime t) \<and> dtend c = Some (Date d) \<and>
                tzinfo start_date \<noteq> None \<and> tzinfo end_date \<noteq> None \<and>
                \<not> spec_in_window start_date end_date (DateTime t))"
  shows "parse_ical_data from_ical rrulestr ical_data start_date end_date err =
           (Exit 1, err' @ [Error ''Error parsing calendar''
                              (if dtstart c = None then AttributeError else TypeError)])"
proof -
  have "regular_event c start_date end_date events =
          Inl (if dtstart c = None then AttributeError else TypeError)"
    using assms(5)
  proof
    assume "dtstart c = None"
    then show ?thesis by (simp add: regular_event_def)
  next
    assume "\<exists>t d. dtstart c = Some (DateTime t) \<and> dtend c = Some (Date d) \<and>
                tzinfo start_date \<noteq> None \<and> tzinfo end_date \<noteq> None \<and>
                \<not> spec_in_window start_date end_date (DateTime t)"
    then obtain t d where "dtstart c = Some (DateTime t)" "dtend c = Some (Date d)"
      "tzinfo start_date \<noteq> None" "tzinfo end_date \<noteq> None"
      "\<not> spec_in_window start_date end_date (DateTime t)"
      by blast
    then show ?thesis
      using regular_event_mixed_raises[of start_date end_date c t d events] by simp
  qed
  then have "process_component rrulestr start_date end_date c (events, err') =
          Inl (if dtstart c = None then AttributeError else TypeError)"
    using assms(3,4) by (simp add: process_component_def)
  then have "walk_loop rrulestr start_date end_date (pre @ c # post) ([], err) =
          Inl (if dtstart c = None then AttributeError else TypeError, err')"
    using assms(2) by (simp add: walk_loop_append)
  then show ?thesis
    using assms(1) by (simp add: parse_ical_data_def)
qed

text \<open>
  Two feeds of three events for the week of 2024-01-01. The first event is inside the
  window and the third is never reached; the second has no start in one feed, and in
  the other starts a week after the window at 10:00 with a bare date as its end.
\<close>

theorem regular_event_failure_aborts_parse_witness:
  "parse_ical_data
     (feed_of [vevent\<lparr>dtstart := Some (DateTime ten_utc)\<rparr>, vevent,
               vevent\<lparr>dtstart := Some (DateTime ten_utc)\<rparr>])
     no_rules [] week_start week_end [] =
     (Exit 1, [Error ''Error parsing calendar'' AttributeError])
   \<and> parse_ical_data
     (feed_of [vevent\<lparr>dtstart := Some (DateTime ten_utc)\<rparr>,
               vevent\<lparr>dtstart := Some (DateTime (ten_utc\<lparr>wall := wall ten_utc + 7 * day_us\<rparr>)),
                      dtend := Some (Date 738895)\<rparr>,
               vevent\<lparr>dtstart := Some (DateTime ten_utc)\<rparr>])
     no_rules [] week_start week_end [] =
     (Exit 1, [Error ''Error parsing calendar'' TypeError])"
proof -
  let ?good = "vevent\<lparr>dtstart := Some (DateTime ten_utc)\<rparr>"
  let ?late = "ten_utc\<lparr>wall := wall ten_utc + 7 * day_us\<rparr>"
  let ?mixed = "vevent\<lparr>dtstart := Some (DateTime ?late), dtend := Some (Date 738895)\<rparr>"
  have pre: "walk_loop no_rules week_start week_end [?good] ([], []) =
     Inr ([\<lparr>ev_summary = ''No Title'', ev_description = [], ev_location = [],
             ev_organizer = [], ev_start = DateTime ten_utc, ev_end = None,
             ev_all_day = False\<rparr>], [])"
    by code_simp
  have out: "\<not> spec_in_window week_start week_end (DateTime ?late)"
    by (simp add: spec_in_window_def instant_def week_start_def week_end_def ten_utc_def
          utc_def day_us_def time_max_def)
  have 1: "parse_ical_data (feed_of [?good, vevent, ?good]) no_rules [] week_start week_end [] =
     (Exit 1, [] @ [Error ''Error parsing calendar''
                      (if dtstart vevent = None then AttributeError else TypeError)])"
    by (rule regular_event_failure_aborts_parse[where pre = "[?good]" and post = "[?good]",
              OF _ pre])
       (simp_all add: feed_of_def vevent_def)
  have 2: "parse_ical_data (feed_of [?good, ?mixed, ?good]) no_rules [] week_start week_end [] =
     (Exit 1, [] @ [Error ''Error parsing calendar''
                      (if dtstart ?mixed = None then AttributeError else TypeError)])"
    using out
    by (intro regular_event_failure_aborts_parse[where pre = "[?good]" and post = "[?good]",
              OF _ pre])
       (simp_all add: feed_of_def vevent_def week_start_def week_end_def utc_def)
  from 1 2 show ?thesis by (simp add: vevent_def)
qed

section \<open>A week without events\<close>







section \<open>The organizer\<close>

lemma split_loop_nonempty: "split_loop sep acc s \<noteq> []"
  by (induction sep acc s rule: split_loop.induct) auto

lemma split_loop_absent: "\<not> str_in sep s \<Longrightarrow> split_loop sep acc s = [acc @ s]"
  by (induction s arbitrary: acc) auto

lemma split_loop_present:
  "sep \<noteq> [] \<Longrightarrow> str_in sep s \<Longrightarrow> 2 \<le> length (split_loop sep acc s)"
proof (induction s arbitrary: acc)
  case Nil
  then show ?case by simp
next
  case (Cons c cs)
  show ?case
  proof (cases "take (length sep) (c # cs) = sep")
    case True
    have "split_loop sep [] (drop (length sep - 1) cs) \<noteq> []"
      by (rule split_loop_nonempty)
    then have "1 \<le> length (split_loop sep [] (drop (length sep - 1) cs))"
      by (cases "split_loop sep [] (drop (length sep - 1) cs)") simp_all
    with True Cons.prems(1) show ?thesis by simp
  next
    case False
    with Cons.prems have "str_in sep cs" by simp
    from Cons.IH[OF Cons.prems(1) this] False show ?thesis by simp
  qed
qed

lemma split_loop_prefix:
  "sep \<noteq> [] \<Longrightarrow> split_loop sep acc (sep @ rest) = acc # split_loop sep [] rest"
  by (cases sep) simp_all

lemma str_in_prefix: "str_in sep (sep @ rest)"
  by (cases sep; cases rest) simp_all

lemma format_organizer_total: "\<exists>org. format_organizer raw = Inr org"
proof (cases "str_in ''MAILTO:'' raw")
  case True
  then have "2 \<le> length (str_split raw ''MAILTO:'')"
    unfolding str_split_def by (intro split_loop_present) simp_all
  with True show ?thesis by (simp add: format_organizer_def index_def)
next
  case False
  then show ?thesis by (simp add: format_organizer_def)
qed

lemma format_organizer_absent:
  "\<not> str_in ''MAILTO:'' raw \<Longrightarrow> format_organizer raw = Inr raw"
  by (simp add: format_organizer_def)

lemma format_organizer_prefix:
  assumes "\<not> str_in ''MAILTO:'' rest"
  shows "format_organizer (''MAILTO:'' @ rest) = Inr (str_strip rest)"
proof -
  have "str_split (''MAILTO:'' @ rest) ''MAILTO:'' = [] # rest # []"
    unfolding str_split_def using split_loop_prefix[of "''MAILTO:''" "[]" rest]
      split_loop_absent[OF assms, of "[]"]
    by simp
  moreover have "str_in ''MAILTO:'' (''MAILTO:'' @ rest)"
    by (rule str_in_prefix)
  ultimately show ?thesis
    unfolding format_organizer_def by (simp add: index_def)
qed

lemma instances_loop_organizer:
  "instances_loop c instances events = (events', x) \<Longrightarrow>
   \<exists>new. events' = events @ new \<and> (\<forall>e\<in>set new. ev_organizer e = get_str (organizer c) [])"
proof (induction instances arbitrary: events)
  case Nil
  then show ?case by simp
next
  case (Cons i rest)
  show ?case
  proof (cases "instance_event c i")
    case (Inl y)
    with Cons.prems show ?thesis by simp
  next
    case (Inr ev)
    then have raw: "ev_organizer ev = get_str (organizer c) []"
      by (auto simp: instance_event_def split: sum.splits)
    from Cons.prems Inr have "instances_loop c rest (events @ [ev]) = (events', x)"
      by simp
    from Cons.IH[OF this] obtain new
      where "events' = (events @ [ev]) @ new"
        and "\<forall>e\<in>set new. ev_organizer e = get_str (organizer c) []"
      by blast
    with raw have "events' = events @ (ev # new) \<and>
        (\<forall>e\<in>set (ev # new). ev_organizer e = get_str (organizer c) [])"
      by simp
    then show ?thesis by blast
  qed
qed

lemma process_component_organizer:
  assumes "name c = ''VEVENT''"
    and "process_component rrulestr start_date end_date c (events, err) = Inr (events', err')"
  shows "\<exists>new. events' = events @ new \<and>
           (\<forall>e\<in>set new. ev_organizer e = get_str (organizer c) [])"
proof (cases "rrule c")
  case None
  with assms have r: "regular_event c start_date end_date events = Inr events'"
    by (auto simp: process_component_def split: sum.splits)
  then have "events' = events \<or>
     (\<exists>e. events' = events @ [e] \<and> ev_organizer e = get_str (organizer c) [])"
    by (auto simp: regular_event_def Let_def split: option.splits sum.splits bool.splits)
  then show ?thesis by auto
next
  case (Some rule)
  with assms have re: "recurring_event rrulestr c rule start_date end_date (events, err) =
                     Inr (events', err')"
    by (simp add: process_component_def)
  then obtain r where r: "rule = Rule r"
    by (cases rule) (simp_all add: recurring_event_def)
  from re r obtain d where d: "dtstart c = Some d"
    by (cases "dtstart c") (simp_all add: recurring_event_def)
  obtain evs x where ri: "recurring_instances rrulestr c r (dtstart_stamp (attach_utc d))
          (date_aware (attach_utc d) start_date) (date_aware (attach_utc d) end_date) events
        = (evs, x)"
    by (cases "recurring_instances rrulestr c r (dtstart_stamp (attach_utc d))
          (date_aware (attach_utc d) start_date) (date_aware (attach_utc d) end_date) events")
  with re r d have same: "events' = evs"
    by (cases x) (simp_all add: recurring_event_def Let_def)
  have "\<exists>new. evs = events @ new \<and> (\<forall>e\<in>set new. ev_organizer e = get_str (organizer c) [])"
    using ri instances_loop_organizer
    by (fastforce simp: recurring_instances_def split: sum.splits)
  with same show ?thesis by simp
qed

lemma format_event_organizer:
  "\<exists>f. format_event strftime e = Inr f \<and>
       (\<not> str_in ''MAILTO:'' (ev_organizer e) \<longrightarrow> Organizer f = ev_organizer e) \<and>
       (\<forall>rest. ev_organizer e = ''MAILTO:'' @ rest \<and> \<not> str_in ''MAILTO:'' rest
                \<longrightarrow> Organizer f = str_strip rest)"
proof -
  obtain org where org: "format_organizer (ev_organizer e) = Inr org"
    using format_organizer_total by blast
  define f where "f = \<lparr>Summary = ev_summary e,
      Start = (if ev_all_day e
               then strftime ''%Y-%m-%d'' (ev_start e) @ '' (All day)''
               else strftime ''%Y-%m-%d %H:%M'' (ev_start e)),
      End = (if ev_all_day e
             then (case ev_end e of
                     Some x \<Rightarrow> strftime ''%Y-%m-%d'' x @ '' (All day)''
                   | None \<Rightarrow> ''N/A'')
             else (case ev_end e of
                     Some x \<Rightarrow> strftime ''%Y-%m-%d %H:%M'' x
                   | None \<Rightarrow> ''N/A'')),
      Location = ev_location e,
      Organizer = org,
      Description = ev_description e\<rparr>"
  have fe: "format_event strftime e = Inr f"
    unfolding format_event_def Let_def org sum.case f_def ..
  have fo: "Organizer f = org"
    by (simp add: f_def)
  have a: "Organizer f = ev_organizer e" if "\<not> str_in ''MAILTO:'' (ev_organizer e)"
    using format_organizer_absent[OF that] org fo by simp
  have b: "Organizer f = str_strip rest"
    if "ev_organizer e = ''MAILTO:'' @ rest" and "\<not> str_in ''MAILTO:'' rest" for rest
  proof -
    from format_organizer_prefix[OF that(2)] that(1) org have "org = str_strip rest"
      by (simp only: sum.inject)
    with fo show ?thesis by (simp only:)
  qed
  from fe a b show ?thesis by blast
qed

text \<open>
  \<open>strip()\<close> takes the no-break space and the next-line character for white space.
\<close>

lemma organizer_strip_unicode_space:
  "format_organizer (''MAILTO:john@example.org'' @ [CHR 0xA0, CHR 0x85]) =
     Inr ''john@example.org''"
  by code_simp

text \<open>
  C9, as the code has it. Parsing keeps the organizer as the feed gives it, and
  formatting removes the scheme: every occurrence a VEVENT contributes is formatted
  without an exception; its organizer is rendered unchanged when it does not contain
  \<open>MAILTO:\<close>, and as the part after the prefix with the white space around it
  stripped when it starts with \<open>MAILTO:\<close> and does not contain it again.
\<close>

theorem organizer_mailto_stripped_in_formatting:
  assumes "name c = ''VEVENT''"
    and "process_component rrulestr start_date end_date c (events, err) = Inr (events', err')"
  shows "\<exists>new. events' = events @ new \<and>
           (\<forall>e\<in>set new.
              ev_organizer e = get_str (organizer c) [] \<and>
              (\<exists>f. format_event strftime e = Inr f \<and>
                   (\<not> str_in ''MAILTO:'' (ev_organizer e) \<longrightarrow> Organizer f = ev_organizer e) \<and>
                   (\<forall>rest. ev_organizer e = ''MAILTO:'' @ rest \<and> \<not> str_in ''MAILTO:'' rest
                            \<longrightarrow> Organizer f = str_strip rest)))"
proof -
  from process_component_organizer[OF assms] obtain new
    where new: "events' = events @ new"
      and raw: "\<forall>e\<in>set new. ev_organizer e = get_str (organizer c) []"
    by blast
  have "\<forall>e\<in>set new.
          ev_organizer e = get_str (organizer c) [] \<and>
          (\<exists>f. format_event strftime e = Inr f \<and>
               (\<not> str_in ''MAILTO:'' (ev_organizer e) \<longrightarrow> Organizer f = ev_organizer e) \<and>
               (\<forall>rest. ev_organizer e = ''MAILTO:'' @ rest \<and> \<not> str_in ''MAILTO:'' rest
                        \<longrightarrow> Organizer f = str_strip rest))"
  proof
    fix e assume "e \<in> set new"
    with raw have "ev_organizer e = get_str (organizer c) []" by (rule bspec)
    with format_event_organizer[of strftime e]
    show "ev_organizer e = get_str (organizer c) [] \<and>
          (\<exists>f. format_event strftime e = Inr f \<and>
               (\<not> str_in ''MAILTO:'' (ev_organizer e) \<longrightarrow> Organizer f = ev_organizer e) \<and>
               (\<forall>rest. ev_organizer e = ''MAILTO:'' @ rest \<and> \<not> str_in ''MAILTO:'' rest
                        \<longrightarrow> Organizer f = str_strip rest))"
      by (rule conjI[rotated])
  qed
  with new show ?thesis by (intro exI[of _ new] conjI)
qed

text \<open>
  An event of the week whose organizer is \<open>MAILTO:john@example.org\<close>.
\<close>

theorem organizer_mailto_stripped_in_formatting_witness:
  "process_component no_rules week_start week_end invited ([], []) =
     Inr ([\<lparr>ev_summary = ''No Title'', ev_description = [], ev_location = [],
             ev_organizer = ''MAILTO:john@example.org'', ev_start = DateTime ten_utc,
             ev_end = None, ev_all_day = False\<rparr>], [])
   \<and> (\<exists>f. format_event strftime_fmt
             \<lparr>ev_summary = ''No Title'', ev_description = [], ev_location = [],
              ev_organizer = ''MAILTO:john@example.org'', ev_start = DateTime ten_utc,
              ev_end = None, ev_all_day = False\<rparr> = Inr f
          \<and> Organizer f = ''john@example.org'')"
proof -
  let ?e = "\<lparr>ev_summary = ''No Title'', ev_description = [], ev_location = [],
             ev_organizer = ''MAILTO:john@example.org'', ev_start = DateTime ten_utc,
             ev_end = None, ev_all_day = False\<rparr>"
  have run: "process_component no_rules week_start week_end invited ([], []) = Inr ([?e], [])"
    by code_simp
  have n: "name invited = ''VEVENT''"
    by (simp add: invited_def vevent_def)
  have absent: "\<not> str_in ''MAILTO:'' ''john@example.org''"
    by code_simp
  have strip: "str_strip ''john@example.org'' = ''john@example.org''"
    by code_simp
  from organizer_mailto_stripped_in_formatting[OF n run, of strftime_fmt]
  obtain f where "format_event strftime_fmt ?e = Inr f"
    and "\<forall>rest. ev_organizer ?e = ''MAILTO:'' @ rest \<and> \<not> str_in ''MAILTO:'' rest
                \<longrightarrow> Organizer f = str_strip rest"
    by auto
  with absent strip have "format_event strftime_fmt ?e = Inr f \<and> Organizer f = ''john@example.org''"
    by simp
  with run show ?thesis by blast
qed

text \<open>
  C9 as the claim states it fails: the part after the prefix is stripped of the white
  space around it, and an identifier that does not start with the scheme but contains
  it loses everything up to it.
\<close>

theorem organizer_not_just_prefix_removal:
  "format_organizer (''MAILTO:'' @ '' john@example.org '') = Inr ''john@example.org''
   \<and> ''john@example.org'' \<noteq> '' john@example.org ''
   \<and> format_organizer ''John <MAILTO:john@example.org'' = Inr ''john@example.org''"
  by code_simp

section \<open>Naive date-times\<close>

lemma event_duration_naive:
  assumes "dtstart c = Some (DateTime s)" and "dtend c = Some (DateTime e)"
    and "tzinfo s = None \<or> tzinfo e = None"
  shows "event_duration c = Inr (Some (wall e - wall s))"
proof (cases "tzinfo s")
  case None
  note s = None
  show ?thesis
  proof (cases "tzinfo e")
    case None
    with s assms(1,2) show ?thesis
      by (simp add: event_duration_def dt_sub_def dt_keys_def)
  next
    case (Some z)
    with s assms(1,2) show ?thesis
      by (simp add: event_duration_def dt_sub_def dt_keys_def replace_tzinfo_def)
  qed
next
  case (Some z)
  with assms(3) have "tzinfo e = None" by simp
  with Some assms(1,2) show ?thesis
    by (simp add: event_duration_def dt_sub_def dt_keys_def replace_tzinfo_def)
qed

lemma attach_utc_explicit:
  "attach_utc v =
     (case v of
        Date d \<Rightarrow> Date d
      | DateTime e \<Rightarrow>
          DateTime \<lparr>wall = wall e, tzinfo = (if tzinfo e = None then utc else tzinfo e)\<rparr>)"
  by (cases v) (simp_all add: replace_tzinfo_def)

lemma regular_event_datetime_start:
  assumes "dtstart c = Some (DateTime s)"
    and "regular_event c start_date end_date events = Inr events'"
  shows "events' = events \<or>
         events' = events @
           [\<lparr>ev_summary = get_str (summary c) ''No Title'',
             ev_description = get_str (description c) [],
             ev_location = get_str (location c) [],
             ev_organizer = get_str (organizer c) [],
             ev_start = attach_utc (DateTime s),
             ev_end = map_option attach_utc (dtend c),
             ev_all_day = False\<rparr>]"
  using assms
  by (auto simp: regular_event_def Let_def simp del: attach_utc.simps
           split: sum.splits bool.splits)

lemma whole_seconds_from_year_1000:
  assumes "364878 * day_us \<le> w"
  shows "364878 * day_us \<le> w - w mod 1000000"
proof -
  have k: "364878 * day_us = 1000000 * 31525459200"
    by (simp add: day_us_def)
  have "(1000000 * 31525459200) div 1000000 \<le> w div (1000000 :: int)"
    using assms unfolding k by (intro zdiv_mono1) simp_all
  then have "31525459200 \<le> w div 1000000"
    by simp
  moreover have "w - w mod 1000000 = 1000000 * (w div 1000000)"
    by (simp add: minus_mod_eq_mult_div)
  ultimately show ?thesis
    unfolding k by simp
qed

text \<open>
  C6, as the code has it, for a definition whose start is a date-time. In the
  non-recurring path the occurrence carries the clock values of the start and of a
  date-time end, with UTC attached where the value was naive. In the recurring path
  the rule of a naive start from year 1000 on is parsed with the stamp of its clock
  value, to the second, in UTC, and the window bounds get UTC where they are naive.
  The duration of the recurring path does not attach UTC: with a naive start or end
  it is the difference of the two clock values (a naive value next to an aware one
  takes the zone of the aware one).
\<close>

theorem naive_clock_value_kept:
  assumes "dtstart c = Some (DateTime s)"
  shows "(\<forall>events'. regular_event c start_date end_date events = Inr events' \<longrightarrow>
            events' = events \<or>
            events' = events @
              [\<lparr>ev_summary = get_str (summary c) ''No Title'',
                ev_description = get_str (description c) [],
                ev_location = get_str (location c) [],
                ev_organizer = get_str (organizer c) [],
                ev_start = DateTime \<lparr>wall = wall s,
                             tzinfo = (if tzinfo s = None then utc else tzinfo s)\<rparr>,
                ev_end = map_option
                  (\<lambda>v. case v of
                         Date d \<Rightarrow> Date d
                       | DateTime e \<Rightarrow>
                           DateTime \<lparr>wall = wall e,
                             tzinfo = (if tzinfo e = None then utc else tzinfo e)\<rparr>)
                  (dtend c),
                ev_all_day = False\<rparr>])
       \<and> (tzinfo s = None \<and> 364878 * day_us \<le> wall s \<longrightarrow>
            recurring_event rrulestr c (Rule r) start_date end_date (events, err) =
              (case recurring_instances rrulestr c r
                      (Stamp \<lparr>wall = wall s - wall s mod 1000000, tzinfo = utc\<rparr>)
                      (if tzinfo start_date = None then replace_tzinfo start_date utc
                       else start_date)
                      (if tzinfo end_date = None then replace_tzinfo end_date utc
                       else end_date)
                      events of
                 (evs, None) \<Rightarrow> Inr (evs, err)
               | (evs, Some x) \<Rightarrow>
                   Inr (evs, err @ [Error ''Error processing recurring event'' x])))
       \<and> (\<forall>e. dtend c = Some (DateTime e) \<and> (tzinfo s = None \<or> tzinfo e = None) \<longrightarrow>
            event_duration c = Inr (Some (wall e - wall s)))"
proof -
  have fn: "attach_utc =
     (\<lambda>v. case v of
            Date d \<Rightarrow> Date d
          | DateTime e \<Rightarrow>
              DateTime \<lparr>wall = wall e, tzinfo = (if tzinfo e = None then utc else tzinfo e)\<rparr>)"
    by (rule ext) (rule attach_utc_explicit)
  have st: "attach_utc (DateTime s) =
              DateTime \<lparr>wall = wall s, tzinfo = (if tzinfo s = None then utc else tzinfo s)\<rparr>"
    by (simp add: attach_utc_explicit)
  have part1: "\<forall>events'. regular_event c start_date end_date events = Inr events' \<longrightarrow>
            events' = events \<or>
            events' = events @
              [\<lparr>ev_summary = get_str (summary c) ''No Title'',
                ev_description = get_str (description c) [],
                ev_location = get_str (location c) [],
                ev_organizer = get_str (organizer c) [],
                ev_start = attach_utc (DateTime s),
                ev_end = map_option attach_utc (dtend c),
                ev_all_day = False\<rparr>]"
    using regular_event_datetime_start[OF assms] by blast
  have part2: "recurring_event rrulestr c (Rule r) start_date end_date (events, err) =
              (case recurring_instances rrulestr c r
                      (Stamp \<lparr>wall = wall s - wall s mod 1000000, tzinfo = utc\<rparr>)
                      (if tzinfo start_date = None then replace_tzinfo start_date utc
                       else start_date)
                      (if tzinfo end_date = None then replace_tzinfo end_date utc
                       else end_date)
                      events of
                 (evs, None) \<Rightarrow> Inr (evs, err)
               | (evs, Some x) \<Rightarrow>
                   Inr (evs, err @ [Error ''Error processing recurring event'' x]))"
    if "tzinfo s = None" and "364878 * day_us \<le> wall s"
  proof -
    have a: "attach_utc (DateTime s) = DateTime (replace_tzinfo s utc)"
      using that(1) by simp
    have b: "dtstart_stamp (DateTime (replace_tzinfo s utc)) =
               Stamp \<lparr>wall = wall s - wall s mod 1000000, tzinfo = utc\<rparr>"
      using whole_seconds_from_year_1000[OF that(2)]
      by (simp add: dtstart_stamp_def replace_tzinfo_def)
    have c: "date_aware (DateTime (replace_tzinfo s utc)) bound =
               (if tzinfo bound = None then replace_tzinfo bound utc else bound)" for bound
      by (simp add: replace_tzinfo_def utc_def)
    show ?thesis
      unfolding recurring_event_def rrule_prop.case assms option.case Let_def a b c fst_conv
        snd_conv ..
  qed
  have part3: "event_duration c = Inr (Some (wall e - wall s))"
    if "dtend c = Some (DateTime e)" and "tzinfo s = None \<or> tzinfo e = None" for e
    using event_duration_naive[OF assms that] .
  from part1 part2 part3 show ?thesis
    unfolding st fn[symmetric] by blast
qed

text \<open>
  A definition from 10:00 to 11:00 on 2024-01-02, both without a zone, without and
  with a \<open>COUNT=1\<close> rule.
\<close>

theorem naive_clock_value_kept_witness:
  "regular_event (vevent\<lparr>dtstart := Some (DateTime ten_naive),
                          dtend := Some (DateTime eleven_naive)\<rparr>)
     week_start week_end [] =
     Inr [\<lparr>ev_summary = ''No Title'', ev_description = [], ev_location = [],
            ev_organizer = [], ev_start = DateTime ten_utc,
            ev_end = Some (DateTime eleven_utc), ev_all_day = False\<rparr>]
   \<and> recurring_event count_one
       (vevent\<lparr>dtstart := Some (DateTime ten_naive), dtend := Some (DateTime eleven_naive)\<rparr>)
       (Rule ''FREQ=DAILY;COUNT=1'') week_start week_end ([], []) =
     Inr ([\<lparr>ev_summary = ''No Title'', ev_description = [], ev_location = [],
             ev_organizer = [], ev_start = DateTime ten_utc,
             ev_end = Some (DateTime eleven_utc), ev_all_day = False\<rparr>], [])
   \<and> event_duration (vevent\<lparr>dtstart := Some (DateTime ten_naive),
                              dtend := Some (DateTime eleven_naive)\<rparr>) =
     Inr (Some 3600000000)"
proof -
  let ?c = "vevent\<lparr>dtstart := Some (DateTime ten_naive), dtend := Some (DateTime eleven_naive)\<rparr>"
  have h: "dtstart ?c = Some (DateTime ten_naive)"
    by (simp add: vevent_def)
  have e: "dtend ?c = Some (DateTime eleven_naive)"
    by (simp add: vevent_def)
  have n: "tzinfo ten_naive = None" "364878 * day_us \<le> wall ten_naive"
    by (simp_all add: ten_naive_def day_us_def)
  have run: "regular_event ?c week_start week_end [] =
     Inr [\<lparr>ev_summary = ''No Title'', ev_description = [], ev_location = [],
            ev_organizer = [], ev_start = DateTime ten_utc,
            ev_end = Some (DateTime eleven_utc), ev_all_day = False\<rparr>]"
    by code_simp
  note kept = naive_clock_value_kept[OF h, of week_start week_end "[]" count_one
      "''FREQ=DAILY;COUNT=1''" "[]"]
  from kept n have "recurring_event count_one ?c (Rule ''FREQ=DAILY;COUNT=1'')
                     week_start week_end ([], []) =
      (case recurring_instances count_one ?c ''FREQ=DAILY;COUNT=1''
              (Stamp \<lparr>wall = wall ten_naive - wall ten_naive mod 1000000, tzinfo = utc\<rparr>)
              (if tzinfo week_start = None then replace_tzinfo week_start utc else week_start)
              (if tzinfo week_end = None then replace_tzinfo week_end utc else week_end)
              [] of
         (evs, None) \<Rightarrow> Inr (evs, [])
       | (evs, Some x) \<Rightarrow> Inr (evs, [] @ [Error ''Error processing recurring event'' x]))"
    by blast
  also have "\<dots> = Inr ([\<lparr>ev_summary = ''No Title'', ev_description = [], ev_location = [],
             ev_organizer = [], ev_start = DateTime ten_utc,
             ev_end = Some (DateTime eleven_utc), ev_all_day = False\<rparr>], [])"
    by code_simp
  finally have rec: "recurring_event count_one ?c (Rule ''FREQ=DAILY;COUNT=1'')
                     week_start week_end ([], []) =
      Inr ([\<lparr>ev_summary = ''No Title'', ev_description = [], ev_location = [],
             ev_organizer = [], ev_start = DateTime ten_utc,
             ev_end = Some (DateTime eleven_utc), ev_all_day = False\<rparr>], [])" .
  from kept e n(1) have "event_duration ?c = Inr (Some (wall eleven_naive - wall ten_naive))"
    by blast
  then have dur: "event_duration ?c = Inr (Some 3600000000)"
    by (simp add: ten_naive_def eleven_naive_def)
  from run rec dur show ?thesis by simp
qed

text \<open>
  C6 as the claim states it fails in two places. In the recurring path, for a naive
  start at 10:00 and an end at 11:00 in a zone one hour ahead of UTC (the instant
  10:00 UTC) the duration is one hour, so the naive start was read in the zone of the
  end; read in UTC it is the instant of the end, and the duration would be zero. The
  occurrence of the rule anchored at 10:00 UTC ends at 11:00 UTC. In the non-recurring
  path, for a start on the bare date 2024-01-02 and a naive end at 11:00 of that day,
  line 144 keeps the date of the end only: the occurrence ends at 00:00 UTC.
\<close>

theorem recurring_naive_start_takes_end_zone:
  "event_duration (daily_once\<lparr>dtstart := Some (DateTime ten_naive),
                               dtend := Some (DateTime eleven_berlin)\<rparr>) =
     Inr (Some 3600000000)
   \<and> dt_sub eleven_berlin (replace_tzinfo ten_naive utc) = Inr 0
   \<and> process_component count_one week_start week_end
       (daily_once\<lparr>dtstart := Some (DateTime ten_naive),
                    dtend := Some (DateTime eleven_berlin)\<rparr>) ([], []) =
     Inr ([\<lparr>ev_summary = ''No Title'', ev_description = [], ev_location = [],
             ev_organizer = [], ev_start = DateTime ten_utc,
             ev_end = Some (DateTime eleven_utc), ev_all_day = False\<rparr>], [])
   \<and> process_component no_rules week_start week_end
       (vevent\<lparr>dtstart := Some (Date 738887), dtend := Some (DateTime eleven_naive)\<rparr>)
       ([], []) =
     Inr ([\<lparr>ev_summary = ''No Title'', ev_description = [], ev_location = [],
             ev_organizer = [],
             ev_start = DateTime \<lparr>wall = 738887 * day_us, tzinfo = utc\<rparr>,
             ev_end = Some (DateTime \<lparr>wall = 738887 * day_us, tzinfo = utc\<rparr>),
             ev_all_day = True\<rparr>], [])"
  by code_simp

section \<open>The details block\<close>

text \<open>
  What holds of the cut: a description in which the Zoom marker occurs and the Teams
  marker does not is cut at the first occurrence of the Zoom marker.
\<close>

lemma str_in_middle: "str_in sep (pre @ sep @ post)"
  by (induction pre) (simp_all add: str_in_prefix)

lemma split_loop_first:
  assumes "sep \<noteq> []" and "\<not> str_in sep (pre @ butlast sep)"
  shows "split_loop sep acc (pre @ sep @ post) = (acc @ pre) # split_loop sep [] post"
  using assms(2)
proof (induction pre arbitrary: acc)
  case Nil
  from split_loop_prefix[OF assms(1)] show ?case by simp
next
  case (Cons c pre)
  from Cons.prems have here: "take (length sep) (c # pre @ butlast sep) \<noteq> sep"
    and later: "\<not> str_in sep (pre @ butlast sep)"
    by simp_all
  have "sep = butlast sep @ [last sep]"
    using assms(1) by simp
  then have "c # pre @ sep @ post = (c # pre @ butlast sep) @ ([last sep] @ post)"
    by (metis append.assoc append_Cons)
  moreover have "length sep \<le> length (c # pre @ butlast sep)"
    using assms(1) by (cases sep) simp_all
  ultimately have "take (length sep) (c # pre @ sep @ post) =
                   take (length sep) (c # pre @ butlast sep)"
    by (metis append.right_neutral diff_is_0_eq take_0 take_append)
  with here have "take (length sep) (c # pre @ sep @ post) \<noteq> sep"
    by simp
  then have "split_loop sep acc ((c # pre) @ sep @ post) =
             split_loop sep (acc @ [c]) (pre @ sep @ post)"
    by simp
  also have "\<dots> = ((acc @ [c]) @ pre) # split_loop sep [] post"
    by (rule Cons.IH[OF later])
  finally show ?case by simp
qed

lemma cut_description_zoom_only:
  assumes "\<not> str_in ''Join Microsoft Teams Meeting'' (pre @ ''Join Zoom Meeting'' @ post)"
    and "\<not> str_in ''Join Zoom Meeting'' (pre @ butlast ''Join Zoom Meeting'')"
  shows "cut_description (pre @ ''Join Zoom Meeting'' @ post) = pre"
proof -
  have "str_split (pre @ ''Join Zoom Meeting'' @ post) ''Join Zoom Meeting'' =
          pre # split_loop ''Join Zoom Meeting'' [] post"
    unfolding str_split_def
    using split_loop_first[OF _ assms(2), of "[]" post] by simp
  then have "hd (str_split (pre @ ''Join Zoom Meeting'' @ post) ''Join Zoom Meeting'') = pre"
    by (simp only: list.sel)
  with assms(1) str_in_middle[of "''Join Zoom Meeting''" pre post] show ?thesis
    unfolding cut_description_def by (simp only: if_False if_True)
qed

text \<open>
  C8. The claim cuts the description at the first occurrence of any of the three
  markers. The code tries the markers in a fixed order and cuts at the first one of
  that order that is present: when the Zoom marker comes before the Teams marker in
  the text, the cut is at the Teams marker and the Zoom marker with what follows it
  stays in the details block.
\<close>

theorem details_cut_at_later_marker:
  "cut_description ''Agenda. Join Zoom Meeting 123 456. Join Microsoft Teams Meeting 789'' =
     ''Agenda. Join Zoom Meeting 123 456. ''
   \<and> write_event
       \<lparr>Summary = ''Sync'', Start = ''2024-01-02 10:00'', End = ''N/A'', Location = [],
        Organizer = [],
        Description = ''Agenda. Join Zoom Meeting 123 456. Join Microsoft Teams Meeting 789''\<rparr> =
     Inr (''### Sync'' @ nl @ nl @ ''**Time:** 10:00 - N/A'' @ nl @ nl @
          ''**Details:**'' @ nl @ nl @ ''    Agenda. Join Zoom Meeting 123 456. '' @ nl @ nl @
          ''---'' @ nl @ nl)"
  by code_simp

end
